theory Spec2Isabelle
  imports Complex_Main
begin

section \<open>Conventions of the embedding\<close>

text \<open>
  The development embeds the measuring and pricing functions of
  \<^verbatim>\<open>dxf_report_generator.py\<close>.

  \<^item> A Python \<^verbatim>\<open>float\<close> is modelled by a \<^typ>\<open>real\<close>, and the order of the operations
    is kept as the source writes it. \<^verbatim>\<open>math.pi\<close> is \<^term>\<open>pi\<close>, \<^verbatim>\<open>math.hypot\<close>,
    \<^verbatim>\<open>math.radians\<close>, \<^verbatim>\<open>math.cos\<close> and \<^verbatim>\<open>math.sin\<close> are their mathematical
    counterparts. Where a property depends on the rounding of the doubles, the operations
    are modelled a second time with the result of each one passed through a rounding
    function \<open>rnd\<close>, a parameter: the identity gives the exact arithmetic back, and
    \<open>binary64\<close> is the rounding of IEEE 754 double precision. Overflow and NaN are not
    modelled.
  \<^item> A Python \<^verbatim>\<open>int\<close> is an \<^typ>\<open>int\<close>.
  \<^item> A Python \<^verbatim>\<open>str\<close> is the list of its code points. The Unicode properties that
    \<^verbatim>\<open>str.isdigit\<close> and \<^verbatim>\<open>int\<close> read are a parameter, a table of type \<open>unicode_db\<close>;
    \<open>unicode_14\<close> is the table of Unicode 14.0.0, the version of CPython 3.11.
  \<^item> An exception is a value \<open>Inl e\<close> of the result type \<open>error + 'a\<close>.
\<close>

datatype error = AttributeError | IndexError | ValueError

section \<open>Quantity from the file name\<close>

subsection \<open>Strings\<close>

text \<open>
  A code point is the integer that \<^verbatim>\<open>ord\<close> returns; \<open>py_str\<close> turns an ASCII literal
  into the string of its code points.
\<close>

type_synonym codepoint = int

type_synonym str = "codepoint list"

definition ord_chr :: "char \<Rightarrow> codepoint" where
  "ord_chr c = of_char c"

definition py_str :: "string \<Rightarrow> str" where
  "py_str s = map ord_chr s"

subsection \<open>The library functions the source calls\<close>

text \<open>
  \<^verbatim>\<open>str.rfind(c)\<close>: the highest index at which \<open>c\<close> occurs, \<open>-1\<close> when it does not occur.
\<close>

fun rfind_from :: "nat \<Rightarrow> str \<Rightarrow> codepoint \<Rightarrow> int" where
  "rfind_from i [] c = - 1"
| "rfind_from i (x # xs) c =
     (let r = rfind_from (Suc i) xs c
      in if 0 \<le> r then r else if x = c then int i else - 1)"

definition rfind :: "str \<Rightarrow> codepoint \<Rightarrow> int" where
  "rfind p c = rfind_from 0 p c"

text \<open>
  \<^verbatim>\<open>os.path.splitext(p)[0]\<close>, after \<^verbatim>\<open>genericpath._splitext\<close> of the standard library:
  \<^verbatim>\<open>
    sepIndex = p.rfind(sep)
    if altsep: sepIndex = max(sepIndex, p.rfind(altsep))
    dotIndex = p.rfind(extsep)
    if dotIndex > sepIndex:
        filenameIndex = sepIndex + 1
        while filenameIndex < dotIndex:
            if p[filenameIndex:filenameIndex+1] != extsep:
                return p[:dotIndex], p[dotIndex:]
            filenameIndex += 1
    return p, p[:0]
  \<close>
  The separators of the platform are the parameter \<open>seps\<close>: one slash for \<^verbatim>\<open>posixpath\<close>,
  backslash and slash for \<^verbatim>\<open>ntpath\<close>. The scan of the while loop is \<^const>\<open>list_ex\<close> over
  the indices it visits.
\<close>

definition posix_seps :: "codepoint list" where
  "posix_seps = [ord_chr CHR ''/'']"

definition nt_seps :: "codepoint list" where
  "nt_seps = [ord_chr CHR 0x5C, ord_chr CHR ''/'']"

definition splitext_root :: "codepoint list \<Rightarrow> str \<Rightarrow> str" where
  "splitext_root seps p =
     (let sepIndex = foldl max (- 1) (map (rfind p) seps);
          dotIndex = rfind p (ord_chr CHR ''.'')
      in if sepIndex < dotIndex
            \<and> list_ex (\<lambda>i. p ! i \<noteq> ord_chr CHR ''.'') [nat (sepIndex + 1)..<nat dotIndex]
         then take (nat dotIndex) p
         else p)"

text \<open>
  \<^verbatim>\<open>s.rsplit(c, 1)\<close>: at most one split, at the last occurrence of \<open>c\<close>.
\<close>

definition rsplit1 :: "codepoint \<Rightarrow> str \<Rightarrow> str list" where
  "rsplit1 c s =
     (let i = rfind s c
      in if i < 0 then [s] else [take (nat i) s, drop (nat i + 1) s])"

text \<open>
  The two properties of the Unicode Character Database that the source reads through
  \<^verbatim>\<open>str.isdigit\<close> and \<^verbatim>\<open>int\<close>: \<open>decimal_of c\<close> is the value of \<open>c\<close> when \<open>c\<close> is a
  decimal digit (Numeric_Type=Decimal, the characters \<^verbatim>\<open>str.isdecimal\<close> accepts), and
  \<open>digit_only c\<close> holds when \<open>c\<close> is a digit that is not decimal (Numeric_Type=Digit:
  superscripts, subscripts, circled digits and the like).
\<close>

record unicode_db =
  decimal_of :: "codepoint \<Rightarrow> nat option"
  digit_only :: "codepoint \<Rightarrow> bool"

text \<open>
  The table of Unicode 14.0.0. The decimal digits come in 66 runs of ten consecutive code
  points, each run from the digit zero to the digit nine of one script; \<open>decimal_zeros\<close>
  lists the zeros. The digits that are not decimal are the 128 code points of
  \<open>digit_only_ranges\<close>, given as closed intervals.
\<close>

definition decimal_zeros :: "codepoint list" where
  "decimal_zeros =
     [0x30, 0x660, 0x6F0, 0x7C0, 0x966, 0x9E6, 0xA66, 0xAE6, 0xB66, 0xBE6, 0xC66, 0xCE6,
      0xD66, 0xDE6, 0xE50, 0xED0, 0xF20, 0x1040, 0x1090, 0x17E0, 0x1810, 0x1946, 0x19D0,
      0x1A80, 0x1A90, 0x1B50, 0x1BB0, 0x1C40, 0x1C50, 0xA620, 0xA8D0, 0xA900, 0xA9D0,
      0xA9F0, 0xAA50, 0xABF0, 0xFF10, 0x104A0, 0x10D30, 0x11066, 0x110F0, 0x11136,
      0x111D0, 0x112F0, 0x11450, 0x114D0, 0x11650, 0x116C0, 0x11730, 0x118E0, 0x11950,
      0x11C50, 0x11D50, 0x11DA0, 0x16A60, 0x16AC0, 0x16B50, 0x1D7CE, 0x1D7D8, 0x1D7E2,
      0x1D7EC, 0x1D7F6, 0x1E140, 0x1E2F0, 0x1E950, 0x1FBF0]"

definition digit_only_ranges :: "(codepoint \<times> codepoint) list" where
  "digit_only_ranges =
     [(0xB2, 0xB3), (0xB9, 0xB9), (0x1369, 0x1371), (0x19DA, 0x19DA), (0x2070, 0x2070),
      (0x2074, 0x2079), (0x2080, 0x2089), (0x2460, 0x2468), (0x2474, 0x247C),
      (0x2488, 0x2490), (0x24EA, 0x24EA), (0x24F5, 0x24FD), (0x24FF, 0x24FF),
      (0x2776, 0x277E), (0x2780, 0x2788), (0x278A, 0x2792), (0x10A40, 0x10A43),
      (0x10E60, 0x10E68), (0x11052, 0x1105A), (0x1F100, 0x1F10A)]"

definition unicode_14 :: unicode_db where
  "unicode_14 =
     \<lparr>decimal_of = (\<lambda>c. case filter (\<lambda>z. z \<le> c \<and> c \<le> z + 9) decimal_zeros of
                           [] \<Rightarrow> None
                         | z # _ \<Rightarrow> Some (nat (c - z))),
      digit_only = (\<lambda>c. list_ex (\<lambda>r. fst r \<le> c \<and> c \<le> snd r) digit_only_ranges)\<rparr>"

text \<open>
  \<^verbatim>\<open>str.isdigit()\<close>: the string is not empty and every character is a digit, decimal or
  not. \<^verbatim>\<open>int(s)\<close> reads a string of decimal digits of any script as a number in base ten
  and raises ValueError when a character is not a decimal digit. It is called on strings
  that passed \<^verbatim>\<open>isdigit\<close> only, so signs, blanks and underscores play no role. The bound
  that recent interpreters put on the number of digits \<^verbatim>\<open>int\<close> reads (4300 by default) is
  longer than a file name and is not modelled.
\<close>

definition is_decimal_char :: "unicode_db \<Rightarrow> codepoint \<Rightarrow> bool" where
  "is_decimal_char db c = (decimal_of db c \<noteq> None)"

definition is_digit_char :: "unicode_db \<Rightarrow> codepoint \<Rightarrow> bool" where
  "is_digit_char db c = (is_decimal_char db c \<or> digit_only db c)"

definition isdigit :: "unicode_db \<Rightarrow> str \<Rightarrow> bool" where
  "isdigit db s = (s \<noteq> [] \<and> list_all (is_digit_char db) s)"

definition digit_value :: "unicode_db \<Rightarrow> codepoint \<Rightarrow> int" where
  "digit_value db c = (case decimal_of db c of Some d \<Rightarrow> int d | None \<Rightarrow> 0)"

definition py_int :: "unicode_db \<Rightarrow> str \<Rightarrow> error + int" where
  "py_int db s =
     (if s \<noteq> [] \<and> list_all (is_decimal_char db) s
      then Inr (foldl (\<lambda>n c. 10 * n + digit_value db c) 0 s)
      else Inl ValueError)"

subsection \<open>The function of the source\<close>

text \<open>
  \<^verbatim>\<open>
    def extract_quantity_from_filename(filename):
        base_name = os.path.splitext(filename)[0]
        parts = base_name.rsplit('_', 1)
        if len(parts) == 2 and parts[1].isdigit():
            return int(parts[1])
        else:
            return 1
  \<close>
\<close>

definition extract_quantity_from_filename ::
    "unicode_db \<Rightarrow> codepoint list \<Rightarrow> str \<Rightarrow> error + int" where
  "extract_quantity_from_filename db seps filename =
     (let base_name = splitext_root seps filename;
          parts = rsplit1 (ord_chr CHR ''_'') base_name
      in if length parts = 2 \<and> isdigit db (parts ! 1)
         then py_int db (parts ! 1)
         else Inr 1)"

subsection \<open>The resolver as the specification words it\<close>

text \<open>
  Strip the extension, take the segment after the last underscore of the stem, and read it
  as a decimal number when it is a non-empty run of decimal digits; 1 otherwise.
\<close>

definition last_segment :: "str \<Rightarrow> str" where
  "last_segment stem = rev (takeWhile (\<lambda>c. c \<noteq> ord_chr CHR ''_'') (rev stem))"

definition decimal_value :: "unicode_db \<Rightarrow> str \<Rightarrow> int" where
  "decimal_value db s = (\<Sum>i < length s. digit_value db (s ! i) * 10 ^ (length s - 1 - i))"

definition has_quantity_suffix :: "unicode_db \<Rightarrow> str \<Rightarrow> bool" where
  "has_quantity_suffix db stem =
     (ord_chr CHR ''_'' \<in> set stem \<and> last_segment stem \<noteq> []
      \<and> list_all (is_decimal_char db) (last_segment stem))"

definition resolve_quantity_spec :: "unicode_db \<Rightarrow> codepoint list \<Rightarrow> str \<Rightarrow> int" where
  "resolve_quantity_spec db seps name =
     (let stem = splitext_root seps name
      in if has_quantity_suffix db stem then decimal_value db (last_segment stem) else 1)"

text \<open>
  The stems on which the source calls \<^verbatim>\<open>int\<close> and \<^verbatim>\<open>int\<close> refuses: the segment after
  the last underscore passes \<^verbatim>\<open>isdigit\<close> and holds a digit that is not decimal.
\<close>

definition int_refuses :: "unicode_db \<Rightarrow> str \<Rightarrow> bool" where
  "int_refuses db stem =
     (ord_chr CHR ''_'' \<in> set stem \<and> isdigit db (last_segment stem)
      \<and> \<not> list_all (is_decimal_char db) (last_segment stem))"

section \<open>Rounding of the doubles\<close>

text \<open>
  IEEE 754 double precision rounds the exact result of an operation to the nearest number
  with a significand of 53 bits, a tie going to the even significand. \<open>ulp_exponent x\<close>
  is the exponent of the unit in the last place at \<open>x\<close>: 52 below the exponent of \<open>x\<close>,
  and not below that of the subnormal numbers. The range is not bounded above: where the
  source would yield \<^verbatim>\<open>inf\<close>, \<open>binary64\<close> yields a finite number.
\<close>

definition round_half_even :: "real \<Rightarrow> int" where
  "round_half_even x =
     (let f = \<lfloor>x\<rfloor>; d = x - of_int f
      in if d < 1 / 2 then f else if 1 / 2 < d then f + 1 else if even f then f else f + 1)"

definition ulp_exponent :: "real \<Rightarrow> int" where
  "ulp_exponent x = max \<lfloor>log 2 \<bar>x\<bar>\<rfloor> (- 1022) - 52"

definition pow2 :: "int \<Rightarrow> real" where
  "pow2 k = (if 0 \<le> k then 2 ^ nat k else 1 / 2 ^ nat (- k))"

definition binary64 :: "real \<Rightarrow> real" where
  "binary64 x =
     (if x = 0 then 0
      else let u = pow2 (ulp_exponent x)
           in of_int (round_half_even (x / u)) * u)"

text \<open>
  The doubles of the examples, as the fractions that \<^verbatim>\<open>float.as_integer_ratio\<close> gives:
  the literals \<^verbatim>\<open>0.1\<close>, \<^verbatim>\<open>0.7\<close> and \<^verbatim>\<open>0.3\<close>, the value of \<^verbatim>\<open>2 * math.pi\<close>, and the values
  of \<^verbatim>\<open>math.radians\<close> at \<^verbatim>\<open>90.0\<close> and at \<^verbatim>\<open>89.99999999999999\<close>.
\<close>

definition double_0_1 :: real where
  "double_0_1 = 3602879701896397 / 2 ^ 55"

definition double_0_7 :: real where
  "double_0_7 = 3152519739159347 / 2 ^ 52"

definition double_0_3 :: real where
  "double_0_3 = 5404319552844595 / 2 ^ 54"

definition double_two_pi :: real where
  "double_two_pi = 884279719003555 / 2 ^ 47"

definition double_radians_90 :: real where
  "double_radians_90 = 884279719003555 / 2 ^ 49"

definition double_radians_below_90 :: real where
  "double_radians_below_90 = 7074237752028439 / 2 ^ 52"

section \<open>Geometry of one entity\<close>

text \<open>
  An entity of the model space is what the source observes of an \<^verbatim>\<open>ezdxf\<close> object: the
  string \<^verbatim>\<open>entity.dxftype()\<close> and the attributes and methods it reads. Python looks each
  of them up when the statement runs, and the source guards every entity with
  \<^verbatim>\<open>try ... except Exception\<close>; so each field is an option, \<open>None\<close> when the access
  raises. A point is the pair of its first two coordinates: the source reads \<^verbatim>\<open>p[0]\<close>,
  \<^verbatim>\<open>p[1]\<close> and \<^verbatim>\<open>p[:2]\<close> only. The field \<open>approximate\<close> is the value of
  \<^verbatim>\<open>entity.approximate(segments=100)\<close>.
\<close>

type_synonym point = "real \<times> real"

record entity =
  dxftype :: string
  dxf_start :: "point option"
  dxf_end :: "point option"
  get_points :: "point list option"
  closed :: "bool option"
  dxf_center :: "point option"
  dxf_radius :: "real option"
  dxf_start_angle :: "real option"
  dxf_end_angle :: "real option"
  approximate :: "point list option"

text \<open>
  An entity of type \<open>t\<close> on which every access raises; the examples set the fields they
  need.
\<close>

definition no_entity :: "string \<Rightarrow> entity" where
  "no_entity t =
     \<lparr>dxftype = t, dxf_start = None, dxf_end = None, get_points = None, closed = None,
      dxf_center = None, dxf_radius = None, dxf_start_angle = None, dxf_end_angle = None,
      approximate = None\<rparr>"

definition attr :: "'a option \<Rightarrow> error + 'a" where
  "attr v = (case v of None \<Rightarrow> Inl AttributeError | Some x \<Rightarrow> Inr x)"

definition hypot :: "real \<Rightarrow> real \<Rightarrow> real" where
  "hypot a b = sqrt (a\<^sup>2 + b\<^sup>2)"

definition radians :: "real \<Rightarrow> real" where
  "radians d = d * (pi / 180)"

text \<open>
  \<^verbatim>\<open>
    def calculate_line_length(entity):
        start = entity.dxf.start
        end = entity.dxf.end
        length = math.hypot(end[0] - start[0], end[1] - start[1])
        return length
  \<close>
\<close>

definition calculate_line_length :: "entity \<Rightarrow> error + real" where
  "calculate_line_length e =
     (case attr (dxf_start e) of Inl x \<Rightarrow> Inl x | Inr start \<Rightarrow>
      case attr (dxf_end e) of Inl x \<Rightarrow> Inl x | Inr en \<Rightarrow>
        Inr (hypot (fst en - fst start) (snd en - snd start)))"

text \<open>
  The loop \<^verbatim>\<open>for i in range(len(points) - 1): length += math.hypot(...)\<close>, shared by the
  polyline and the spline. \<^verbatim>\<open>range\<close> of a negative number is empty, as is
  \<open>[0..<0 - 1]\<close> over the naturals.
\<close>

definition segments_length :: "point list \<Rightarrow> real" where
  "segments_length points =
     foldl (\<lambda>length i.
              length + hypot (fst (points ! (i + 1)) - fst (points ! i))
                             (snd (points ! (i + 1)) - snd (points ! i)))
           0 [0..<length points - 1]"

text \<open>
  \<^verbatim>\<open>
    def calculate_polyline_length(entity):
        length = 0.0
        points = list(entity.get_points())
        for i in range(len(points) - 1):
            ...
        if entity.closed:
            start = points[-1]
            end = points[0]
            length += math.hypot(end[0] - start[0], end[1] - start[1])
        return length
  \<close>
  \<^verbatim>\<open>points[-1]\<close> raises IndexError on the empty list.
\<close>

definition calculate_polyline_length :: "entity \<Rightarrow> error + real" where
  "calculate_polyline_length e =
     (case attr (get_points e) of Inl x \<Rightarrow> Inl x | Inr points \<Rightarrow>
      let length = segments_length points in
      case attr (closed e) of Inl x \<Rightarrow> Inl x | Inr c \<Rightarrow>
        if c then
          (if points = [] then Inl IndexError
           else let start = last points; en = hd points
                in Inr (length + hypot (fst en - fst start) (snd en - snd start)))
        else Inr length)"

text \<open>
  \<^verbatim>\<open>
    def calculate_circle_length(entity):
        radius = entity.dxf.radius
        return 2 * math.pi * radius
  \<close>
\<close>

definition calculate_circle_length :: "entity \<Rightarrow> error + real" where
  "calculate_circle_length e =
     (case attr (dxf_radius e) of Inl x \<Rightarrow> Inl x | Inr radius \<Rightarrow> Inr (2 * pi * radius))"

text \<open>
  \<^verbatim>\<open>
    def calculate_arc_length(entity):
        radius = entity.dxf.radius
        start_angle = math.radians(entity.dxf.start_angle)
        end_angle = math.radians(entity.dxf.end_angle)
        angle = end_angle - start_angle
        if angle < 0:
            angle += 2 * math.pi
        return radius * angle
  \<close>
  The value of \<^verbatim>\<open>angle\<close> at the return is named \<open>arc_sweep\<close>, a function of the two
  angles in degrees.
\<close>

definition arc_sweep :: "real \<Rightarrow> real \<Rightarrow> real" where
  "arc_sweep start_deg end_deg =
     (let start_angle = radians start_deg;
          end_angle = radians end_deg;
          angle = end_angle - start_angle
      in if angle < 0 then angle + 2 * pi else angle)"

definition calculate_arc_length :: "entity \<Rightarrow> error + real" where
  "calculate_arc_length e =
     (case attr (dxf_radius e) of Inl x \<Rightarrow> Inl x | Inr radius \<Rightarrow>
      case attr (dxf_start_angle e) of Inl x \<Rightarrow> Inl x | Inr sa \<Rightarrow>
      case attr (dxf_end_angle e) of Inl x \<Rightarrow> Inl x | Inr ea \<Rightarrow>
        Inr (radius * arc_sweep sa ea))"

text \<open>
  The last three statements before the return of \<^verbatim>\<open>calculate_arc_length\<close>, with the
  result of the subtraction and of the addition rounded: \<open>start_angle\<close> and \<open>end_angle\<close>
  are the values that \<^verbatim>\<open>math.radians\<close> returned and \<open>two_pi\<close> is the value of
  \<^verbatim>\<open>2 * math.pi\<close>.
\<close>

definition sweep_rounded :: "(real \<Rightarrow> real) \<Rightarrow> real \<Rightarrow> real \<Rightarrow> real \<Rightarrow> real" where
  "sweep_rounded rnd two_pi start_angle end_angle =
     (let angle = rnd (end_angle - start_angle)
      in if angle < 0 then rnd (angle + two_pi) else angle)"

text \<open>
  \<^verbatim>\<open>
    def calculate_spline_length(entity):
        length = 0.0
        spline_points = entity.approximate(segments=100)
        for i in range(len(spline_points) - 1):
            ...
        return length
  \<close>
\<close>

definition calculate_spline_length :: "entity \<Rightarrow> error + real" where
  "calculate_spline_length e =
     (case attr (approximate e) of Inl x \<Rightarrow> Inl x | Inr spline_points \<Rightarrow>
        Inr (segments_length spline_points))"

section \<open>Total length of a drawing\<close>

text \<open>
  The body of the \<^verbatim>\<open>try\<close> in \<^verbatim>\<open>calculate_total_length\<close>: the value of \<^verbatim>\<open>length\<close>
  when no statement raises, the exception otherwise. An entity of any other type keeps
  \<^verbatim>\<open>length = 0.0\<close>.
\<close>

definition entity_length :: "entity \<Rightarrow> error + real" where
  "entity_length e =
     (if dxftype e = ''LINE'' then calculate_line_length e
      else if dxftype e \<in> set [''LWPOLYLINE'', ''POLYLINE''] then calculate_polyline_length e
      else if dxftype e = ''CIRCLE'' then calculate_circle_length e
      else if dxftype e = ''ARC'' then calculate_arc_length e
      else if dxftype e = ''SPLINE'' then calculate_spline_length e
      else Inr 0)"

text \<open>
  One turn of \<^verbatim>\<open>for entity in msp\<close>: \<^verbatim>\<open>total_length += length\<close> when the body
  returns, \<^verbatim>\<open>continue\<close> with the total unchanged when it raises.
\<close>

definition length_step :: "real \<Rightarrow> entity \<Rightarrow> real" where
  "length_step total_length e =
     (case entity_length e of Inr len \<Rightarrow> total_length + len | Inl x \<Rightarrow> total_length)"

definition calculate_total_length :: "entity list \<Rightarrow> real" where
  "calculate_total_length msp = foldl length_step 0 msp"

section \<open>Bounding box of a drawing\<close>

text \<open>
  \<^verbatim>\<open>get_entity_vertices\<close>, branch by branch as in the source. The list is complete
  before the caller reads its first point.
\<close>

definition get_entity_vertices :: "entity \<Rightarrow> error + point list" where
  "get_entity_vertices e =
     (if dxftype e = ''LINE'' then
        (case attr (dxf_start e) of Inl x \<Rightarrow> Inl x | Inr start \<Rightarrow>
         case attr (dxf_end e) of Inl x \<Rightarrow> Inl x | Inr en \<Rightarrow> Inr [start, en])
      else if dxftype e \<in> set [''LWPOLYLINE'', ''POLYLINE''] then
        (case attr (get_points e) of Inl x \<Rightarrow> Inl x | Inr points \<Rightarrow> Inr points)
      else if dxftype e = ''CIRCLE'' then
        (case attr (dxf_center e) of Inl x \<Rightarrow> Inl x | Inr center \<Rightarrow>
         case attr (dxf_radius e) of Inl x \<Rightarrow> Inl x | Inr radius \<Rightarrow>
           Inr [(fst center - radius, snd center),
                (fst center + radius, snd center),
                (fst center, snd center - radius),
                (fst center, snd center + radius)])
      else if dxftype e = ''ARC'' then
        (case attr (dxf_center e) of Inl x \<Rightarrow> Inl x | Inr center \<Rightarrow>
         case attr (dxf_radius e) of Inl x \<Rightarrow> Inl x | Inr radius \<Rightarrow>
         case attr (dxf_start_angle e) of Inl x \<Rightarrow> Inl x | Inr sa \<Rightarrow>
         case attr (dxf_end_angle e) of Inl x \<Rightarrow> Inl x | Inr ea \<Rightarrow>
           let start_angle = radians sa; end_angle = radians ea
           in Inr [(fst center + radius * cos start_angle,
                    snd center + radius * sin start_angle),
                   (fst center + radius * cos end_angle,
                    snd center + radius * sin end_angle)])
      else if dxftype e = ''SPLINE'' then
        (case attr (approximate e) of Inl x \<Rightarrow> Inl x | Inr spline_points \<Rightarrow>
           Inr spline_points)
      else Inr [])"

text \<open>
  The list of the CIRCLE branch of \<^verbatim>\<open>get_entity_vertices\<close>, with the result of each
  addition and subtraction rounded.
\<close>

definition circle_vertices :: "(real \<Rightarrow> real) \<Rightarrow> point \<Rightarrow> real \<Rightarrow> point list" where
  "circle_vertices rnd center radius =
     [(rnd (fst center - radius), snd center),
      (rnd (fst center + radius), snd center),
      (fst center, rnd (snd center - radius)),
      (fst center, rnd (snd center + radius))]"

text \<open>
  The four running variables \<^verbatim>\<open>min_x, min_y, max_x, max_y\<close>, each \<^verbatim>\<open>None\<close> at first.
\<close>

record bbox =
  min_x :: "real option"
  min_y :: "real option"
  max_x :: "real option"
  max_y :: "real option"

definition empty_bbox :: bbox where
  "empty_bbox = \<lparr>min_x = None, min_y = None, max_x = None, max_y = None\<rparr>"

text \<open>
  The body of \<^verbatim>\<open>for x, y in vertices\<close>:
  \<^verbatim>\<open>
    min_x = x if min_x is None else min(min_x, x)
    min_y = y if min_y is None else min(min_y, y)
    max_x = x if max_x is None else max(max_x, x)
    max_y = y if max_y is None else max(max_y, y)
  \<close>
\<close>

definition merge_point :: "bbox \<Rightarrow> point \<Rightarrow> bbox" where
  "merge_point b p =
     \<lparr>min_x = (case min_x b of None \<Rightarrow> Some (fst p) | Some m \<Rightarrow> Some (min m (fst p))),
      min_y = (case min_y b of None \<Rightarrow> Some (snd p) | Some m \<Rightarrow> Some (min m (snd p))),
      max_x = (case max_x b of None \<Rightarrow> Some (fst p) | Some m \<Rightarrow> Some (max m (fst p))),
      max_y = (case max_y b of None \<Rightarrow> Some (snd p) | Some m \<Rightarrow> Some (max m (snd p)))\<rparr>"

text \<open>
  One turn of \<^verbatim>\<open>for entity in msp\<close> in \<^verbatim>\<open>calculate_bounding_box_area\<close>: the points
  of the entity are merged one by one; when \<^verbatim>\<open>get_entity_vertices\<close> raises, the box is
  left as it was. A point being a pair, the unpacking \<^verbatim>\<open>x, y\<close> does not raise, so no
  entity is left half merged.
\<close>

definition bbox_step :: "bbox \<Rightarrow> entity \<Rightarrow> bbox" where
  "bbox_step b e =
     (case get_entity_vertices e of Inr vertices \<Rightarrow> foldl merge_point b vertices
                                  | Inl x \<Rightarrow> b)"

definition bounding_box :: "entity list \<Rightarrow> bbox" where
  "bounding_box msp = foldl bbox_step empty_bbox msp"

text \<open>
  \<^verbatim>\<open>
    if None not in (min_x, min_y, max_x, max_y):
        width = max_x - min_x
        height = max_y - min_y
        area = width * height / 1_000_000
        return area
    else:
        return 0.0
  \<close>
\<close>

definition bbox_area :: "bbox \<Rightarrow> real" where
  "bbox_area b =
     (case (min_x b, min_y b, max_x b, max_y b) of
        (Some x0, Some y0, Some x1, Some y1) \<Rightarrow>
          (let width = x1 - x0; height = y1 - y0 in width * height / 1000000)
      | _ \<Rightarrow> 0)"

text \<open>
  The local variables \<^verbatim>\<open>width\<close> and \<^verbatim>\<open>height\<close> of \<^verbatim>\<open>calculate_bounding_box_area\<close>,
  defined once a point has been observed, with the result of the subtraction rounded.
\<close>

definition bbox_width :: "(real \<Rightarrow> real) \<Rightarrow> bbox \<Rightarrow> real option" where
  "bbox_width rnd b =
     (case (min_x b, max_x b) of (Some x0, Some x1) \<Rightarrow> Some (rnd (x1 - x0)) | _ \<Rightarrow> None)"

definition bbox_height :: "(real \<Rightarrow> real) \<Rightarrow> bbox \<Rightarrow> real option" where
  "bbox_height rnd b =
     (case (min_y b, max_y b) of (Some y0, Some y1) \<Rightarrow> Some (rnd (y1 - y0)) | _ \<Rightarrow> None)"

definition calculate_bounding_box_area :: "entity list \<Rightarrow> real" where
  "calculate_bounding_box_area msp = bbox_area (bounding_box msp)"

text \<open>
  The points the second pass observes: those of every entity whose
  \<^verbatim>\<open>get_entity_vertices\<close> returns, in the order of the drawing.
\<close>

definition extent_points :: "entity list \<Rightarrow> point list" where
  "extent_points msp =
     concat (map (\<lambda>e. case get_entity_vertices e of Inr vs \<Rightarrow> vs | Inl x \<Rightarrow> []) msp)"

text \<open>
  The box of a list of points, as the specification words it: nothing when there is no
  point, the least and the greatest coordinate on each axis otherwise.
\<close>

definition box_of_points :: "point list \<Rightarrow> bbox" where
  "box_of_points ps =
     (if ps = [] then empty_bbox
      else \<lparr>min_x = Some (Min (fst ` set ps)), min_y = Some (Min (snd ` set ps)),
            max_x = Some (Max (fst ` set ps)), max_y = Some (Max (snd ` set ps))\<rparr>)"

text \<open>
  The types that the two dispatchers of the source name; an entity of any other type is
  of an unrecognized kind.
\<close>

definition recognized :: "entity \<Rightarrow> bool" where
  "recognized e =
     (dxftype e \<in> set [''LINE'', ''LWPOLYLINE'', ''POLYLINE'', ''CIRCLE'', ''ARC'', ''SPLINE''])"

text \<open>
  The sum of the distances between consecutive vertices, as the specification words the
  length of a path.
\<close>

definition distance :: "point \<Rightarrow> point \<Rightarrow> real" where
  "distance p q = sqrt ((fst q - fst p)\<^sup>2 + (snd q - snd p)\<^sup>2)"

definition consecutive_distances :: "point list \<Rightarrow> real" where
  "consecutive_distances ps = (\<Sum>(p, q) \<leftarrow> zip ps (tl ps). distance p q)"

section \<open>Pricing\<close>

text \<open>
  A row of \<^verbatim>\<open>data\<close> is a dictionary with the four keys that \<^verbatim>\<open>process_files\<close>
  stores: the file name, the quantity, the total length of the lines and the area.
\<close>

record report_row =
  row_filename :: string
  row_quantity :: int
  row_total_length :: real
  row_area :: real

text \<open>
  A line of the table. The source formats the three costs into strings for the table;
  the model keeps the numbers that are formatted.
\<close>

record priced_row =
  priced_filename :: string
  priced_quantity :: int
  priced_total_length :: real
  priced_area :: real
  cutting_cost :: real
  material_cost :: real
  total :: real

text \<open>
  One turn of \<^verbatim>\<open>for item in data\<close> in \<^verbatim>\<open>create_pdf\<close>, on the pair of
  \<^verbatim>\<open>grand_total\<close> and the rows appended to \<^verbatim>\<open>table_data\<close> so far:
  \<^verbatim>\<open>
    cutting_cost = (total_length / 1000) * cost_per_meter * quantity
    material_cost = area * cost_per_square_meter * quantity
    total = cutting_cost + material_cost
    grand_total += total
    table_data.append([...])
  \<close>
\<close>

definition price_step :: "real \<Rightarrow> real \<Rightarrow> real \<times> priced_row list \<Rightarrow> report_row
    \<Rightarrow> real \<times> priced_row list" where
  "price_step cost_per_meter cost_per_square_meter st item =
     (let grand_total = fst st;
          table_data = snd st;
          quantity = row_quantity item;
          total_length = row_total_length item;
          area = row_area item;
          cutting_cost_v = (total_length / 1000) * cost_per_meter * of_int quantity;
          material_cost_v = area * cost_per_square_meter * of_int quantity;
          total_v = cutting_cost_v + material_cost_v
      in (grand_total + total_v,
          table_data @ [\<lparr>priced_filename = row_filename item,
                          priced_quantity = quantity,
                          priced_total_length = total_length,
                          priced_area = area,
                          cutting_cost = cutting_cost_v,
                          material_cost = material_cost_v,
                          total = total_v\<rparr>]))"

definition create_pdf_table :: "report_row list \<Rightarrow> real \<Rightarrow> real \<Rightarrow> real \<times> priced_row list" where
  "create_pdf_table data cost_per_meter cost_per_square_meter =
     foldl (price_step cost_per_meter cost_per_square_meter) (0, []) data"

definition grand_total :: "report_row list \<Rightarrow> real \<Rightarrow> real \<Rightarrow> real" where
  "grand_total data cost_per_meter cost_per_square_meter =
     fst (create_pdf_table data cost_per_meter cost_per_square_meter)"

definition priced_rows :: "report_row list \<Rightarrow> real \<Rightarrow> real \<Rightarrow> priced_row list" where
  "priced_rows data cost_per_meter cost_per_square_meter =
     snd (create_pdf_table data cost_per_meter cost_per_square_meter)"

text \<open>
  The priced row as the specification words it: the cutting cost is the length in metres
  times the rate per metre times the quantity, the material cost is the area times the
  rate per square metre times the quantity, the total is their sum.
\<close>

definition priced_row_spec :: "real \<Rightarrow> real \<Rightarrow> report_row \<Rightarrow> priced_row" where
  "priced_row_spec cost_per_length_unit cost_per_area_unit row =
     \<lparr>priced_filename = row_filename row,
      priced_quantity = row_quantity row,
      priced_total_length = row_total_length row,
      priced_area = row_area row,
      cutting_cost = (row_total_length row / 1000) * cost_per_length_unit
                       * of_int (row_quantity row),
      material_cost = row_area row * cost_per_area_unit * of_int (row_quantity row),
      total = (row_total_length row / 1000) * cost_per_length_unit * of_int (row_quantity row)
                + row_area row * cost_per_area_unit * of_int (row_quantity row)\<rparr>"

text \<open>
  The drawing of the end-to-end example of the specification: a line from (0, 0) to (3, 4)
  and a circle of radius 5 about the origin.
\<close>

definition widget :: "entity list" where
  "widget =
     [(no_entity ''LINE'')\<lparr>dxf_start := Some (0, 0), dxf_end := Some (3, 4)\<rparr>,
      (no_entity ''CIRCLE'')\<lparr>dxf_center := Some (0, 0), dxf_radius := Some 5\<rparr>]"

section \<open>Properties of the quantity resolver\<close>

subsection \<open>Splitting at the last underscore\<close>

lemma rfind_from_absent: "c \<notin> set s \<Longrightarrow> rfind_from i s c = - 1"
  by (induction s arbitrary: i) (auto simp: Let_def)

lemma rfind_from_present:
  "c \<in> set s \<Longrightarrow>
     \<exists>k. rfind_from i s c = int i + int k \<and> k < length s \<and> s ! k = c \<and> c \<notin> set (drop (Suc k) s)"
proof (induction s arbitrary: i)
  case Nil
  then show ?case by simp
next
  case (Cons x xs)
  show ?case
  proof (cases "c \<in> set xs")
    case True
    from Cons.IH [OF True, of "Suc i"] obtain k where
      k: "rfind_from (Suc i) xs c = int (Suc i) + int k" "k < length xs" "xs ! k = c"
         "c \<notin> set (drop (Suc k) xs)"
      by blast
    have "rfind_from i (x # xs) c = int i + int (Suc k)"
      using k(1) by (simp add: Let_def)
    with k show ?thesis
      by (intro exI [of _ "Suc k"]) simp
  next
    case False
    with Cons.prems have xc: "x = c" by simp
    have "rfind_from (Suc i) xs c = - 1"
      using False by (rule rfind_from_absent)
    then have "rfind_from i (x # xs) c = int i + int 0"
      using xc by (simp add: Let_def)
    then show ?thesis
      using xc False by (intro exI [of _ 0]) simp
  qed
qed

lemma rfind_negative_iff: "rfind s c < 0 \<longleftrightarrow> c \<notin> set s"
proof
  assume "rfind s c < 0"
  show "c \<notin> set s"
  proof
    assume "c \<in> set s"
    from rfind_from_present [OF this, of 0] obtain k where "rfind_from 0 s c = int 0 + int k"
      by blast
    with \<open>rfind s c < 0\<close> show False by (simp add: rfind_def)
  qed
next
  assume "c \<notin> set s"
  then show "rfind s c < 0" by (simp add: rfind_def rfind_from_absent)
qed

lemma drop_after_last_occurrence:
  assumes "k < length s" "s ! k = c" "c \<notin> set (drop (Suc k) s)"
  shows "drop (Suc k) s = rev (takeWhile (\<lambda>x. x \<noteq> c) (rev s))"
proof -
  have "s = take k s @ c # drop (Suc k) s"
    using assms(1,2) by (metis id_take_nth_drop)
  then have "rev s = rev (drop (Suc k) s) @ c # rev (take k s)"
    by (metis rev.simps(2) rev_append append_assoc append_Cons append_Nil)
  then have "takeWhile (\<lambda>x. x \<noteq> c) (rev s) = rev (drop (Suc k) s)"
    using assms(3) by (auto simp: takeWhile_tail)
  then show ?thesis by simp
qed

lemma rsplit1_absent: "c \<notin> set s \<Longrightarrow> rsplit1 c s = [s]"
  using rfind_negative_iff [of s c] by (simp add: rsplit1_def Let_def)

lemma rsplit1_present:
  assumes "c \<in> set s"
  shows "length (rsplit1 c s) = 2 \<and> rsplit1 c s ! 1 = rev (takeWhile (\<lambda>x. x \<noteq> c) (rev s))"
proof -
  from rfind_from_present [OF assms, of 0] obtain k where
    k: "rfind s c = int k" "k < length s" "s ! k = c" "c \<notin> set (drop (Suc k) s)"
    by (auto simp: rfind_def)
  have "rsplit1 c s = [take k s, drop (Suc k) s]"
    using k(1) by (simp add: rsplit1_def Let_def)
  moreover note drop_after_last_occurrence [OF k(2,3,4)]
  ultimately show ?thesis by simp
qed

subsection \<open>Reading the digits\<close>

lemma digit_value_nonneg: "0 \<le> digit_value db c"
  by (simp add: digit_value_def split: option.split)

lemma digit_value_zero_iff:
  "is_decimal_char db c \<Longrightarrow> digit_value db c = 0 \<longleftrightarrow> decimal_of db c = Some 0"
  by (auto simp: is_decimal_char_def digit_value_def split: option.splits)

lemma horner_nonneg: "0 \<le> a \<Longrightarrow> 0 \<le> foldl (\<lambda>n c. 10 * n + digit_value db c) a s"
proof (induction s arbitrary: a)
  case Nil
  then show ?case by simp
next
  case (Cons c s)
  then have "0 \<le> 10 * a + digit_value db c"
    using digit_value_nonneg [of db c] by simp
  with Cons show ?case by simp
qed

lemma horner_zero_iff:
  "0 \<le> a \<Longrightarrow>
     foldl (\<lambda>n c. 10 * n + digit_value db c) a s = 0
       \<longleftrightarrow> a = 0 \<and> list_all (\<lambda>c. digit_value db c = 0) s"
proof (induction s arbitrary: a)
  case Nil
  then show ?case by simp
next
  case (Cons c s)
  have d: "0 \<le> digit_value db c" by (rule digit_value_nonneg)
  then have nn: "0 \<le> 10 * a + digit_value db c"
    using Cons.prems by simp
  have "10 * a + digit_value db c = 0 \<longleftrightarrow> a = 0 \<and> digit_value db c = 0"
    using d Cons.prems by linarith
  with Cons.IH [OF nn] show ?case by auto
qed

lemma decimal_value_snoc:
  "decimal_value db (s @ [c]) = 10 * decimal_value db s + digit_value db c"
proof -
  have "(\<Sum>i < length s. digit_value db ((s @ [c]) ! i) * 10 ^ (length (s @ [c]) - 1 - i))
      = (\<Sum>i < length s. 10 * (digit_value db (s ! i) * 10 ^ (length s - 1 - i)))"
  proof (rule sum.cong)
    fix i assume "i \<in> {..<length s}"
    then have i: "i < length s" by simp
    then have "length (s @ [c]) - 1 - i = Suc (length s - 1 - i)" by simp
    then show "digit_value db ((s @ [c]) ! i) * 10 ^ (length (s @ [c]) - 1 - i)
             = 10 * (digit_value db (s ! i) * 10 ^ (length s - 1 - i))"
      using i by (simp add: nth_append)
  qed simp
  then show ?thesis
    by (simp add: decimal_value_def sum_distrib_left)
qed

lemma horner_decimal_value:
  "foldl (\<lambda>n c. 10 * n + digit_value db c) 0 s = decimal_value db s"
proof (induction s rule: rev_induct)
  case Nil
  show ?case by (simp add: decimal_value_def)
next
  case (snoc c s)
  then show ?case by (simp add: decimal_value_snoc)
qed

subsection \<open>The source against the specified resolver\<close>

lemma extract_quantity_cases:
  "extract_quantity_from_filename db seps filename =
     (if int_refuses db (splitext_root seps filename) then Inl ValueError
      else Inr (resolve_quantity_spec db seps filename))"
proof -
  define stem where "stem = splitext_root seps filename"
  define seg where "seg = last_segment stem"
  have dig: "isdigit db seg" if "seg \<noteq> []" "list_all (is_decimal_char db) seg"
    using that by (auto simp: isdigit_def is_digit_char_def list_all_iff)
  have ne: "seg \<noteq> []" if "isdigit db seg"
    using that by (simp add: isdigit_def)
  show ?thesis
  proof (cases "ord_chr CHR ''_'' \<in> set stem")
    case False
    then show ?thesis
      by (simp add: extract_quantity_from_filename_def resolve_quantity_spec_def Let_def
          has_quantity_suffix_def int_refuses_def rsplit1_absent flip: stem_def)
  next
    case True
    from rsplit1_present [OF True]
    have p: "length (rsplit1 (ord_chr CHR ''_'') stem) = 2"
      "rsplit1 (ord_chr CHR ''_'') stem ! 1 = seg"
      by (simp_all add: seg_def last_segment_def)
    have code: "extract_quantity_from_filename db seps filename
                  = (if isdigit db seg then py_int db seg else Inr 1)"
      using p by (simp add: extract_quantity_from_filename_def Let_def flip: stem_def)
    have spec: "resolve_quantity_spec db seps filename
                  = (if seg \<noteq> [] \<and> list_all (is_decimal_char db) seg
                     then decimal_value db seg else 1)"
      using True
      by (simp add: resolve_quantity_spec_def has_quantity_suffix_def Let_def
          flip: stem_def seg_def)
    have ref: "int_refuses db stem
                 \<longleftrightarrow> isdigit db seg \<and> \<not> list_all (is_decimal_char db) seg"
      using True by (simp add: int_refuses_def flip: seg_def)
    show ?thesis
    proof (cases "isdigit db seg")
      case False
      with dig have "\<not> (seg \<noteq> [] \<and> list_all (is_decimal_char db) seg)" by blast
      with False code spec ref show ?thesis
        by (simp flip: stem_def)
    next
      case d: True
      show ?thesis
      proof (cases "list_all (is_decimal_char db) seg")
        case False
        then have "py_int db seg = Inl ValueError"
          by (simp add: py_int_def)
        with False d code ref show ?thesis
          by (simp flip: stem_def)
      next
        case True
        with ne [OF d] have "py_int db seg = Inr (decimal_value db seg)"
          by (simp add: py_int_def horner_decimal_value)
        with True ne [OF d] d code spec ref show ?thesis
          by (simp flip: stem_def)
      qed
    qed
  qed
qed

lemma resolve_quantity_spec_nonneg: "0 \<le> resolve_quantity_spec db seps name"
  using horner_nonneg [of 0 db "last_segment (splitext_root seps name)"]
  by (simp add: resolve_quantity_spec_def Let_def horner_decimal_value)

lemma resolve_quantity_spec_zero_iff:
  "resolve_quantity_spec db seps name = 0 \<longleftrightarrow>
     has_quantity_suffix db (splitext_root seps name)
     \<and> list_all (\<lambda>c. decimal_of db c = Some 0) (last_segment (splitext_root seps name))"
proof -
  define seg where "seg = last_segment (splitext_root seps name)"
  show ?thesis
  proof (cases "has_quantity_suffix db (splitext_root seps name)")
    case False
    then show ?thesis by (simp add: resolve_quantity_spec_def)
  next
    case True
    then have seg: "list_all (is_decimal_char db) seg"
      by (simp add: has_quantity_suffix_def seg_def)
    then have "list_all (\<lambda>c. digit_value db c = 0) seg
                 \<longleftrightarrow> list_all (\<lambda>c. decimal_of db c = Some 0) seg"
      by (auto simp: list_all_iff digit_value_zero_iff)
    then have "decimal_value db seg = 0 \<longleftrightarrow> list_all (\<lambda>c. decimal_of db c = Some 0) seg"
      using horner_zero_iff [of 0 db seg] by (simp add: horner_decimal_value)
    with True show ?thesis
      by (simp add: resolve_quantity_spec_def Let_def seg_def)
  qed
qed

lemma extract_quantity_examples:
  "extract_quantity_from_filename unicode_14 nt_seps (py_str ''panel_12.ext'') = Inr 12"
  "extract_quantity_from_filename unicode_14 nt_seps (py_str ''panel.ext'') = Inr 1"
  "extract_quantity_from_filename unicode_14 nt_seps (py_str ''panel_abc.ext'') = Inr 1"
  "extract_quantity_from_filename unicode_14 nt_seps (py_str ''panel_12_7.ext'') = Inr 7"
  "extract_quantity_from_filename unicode_14 nt_seps (py_str ''part_007'') = Inr 7"
  "extract_quantity_from_filename unicode_14 nt_seps (py_str ''a_'' @ [0x2082] @ py_str ''.dxf'')
     = Inl ValueError"
  "extract_quantity_from_filename unicode_14 nt_seps (py_str ''a_'' @ [0x2460] @ py_str ''.dxf'')
     = Inl ValueError"
  by code_simp+

subsection \<open>The claims on the resolver\<close>

text \<open>
  C3, as the specification states it: for every file name the resolver returns an integer
  that is at least 1. The source returns what \<^verbatim>\<open>int\<close> reads, and a suffix of zeros reads
  as 0: the file name \<^verbatim>\<open>panel_0.dxf\<close> resolves to 0.
\<close>

theorem extract_quantity_zero_counterexample:
  "extract_quantity_from_filename unicode_14 nt_seps (py_str ''panel_0.dxf'') = Inr 0"
  by code_simp

text \<open>
  C3, amended: on every file name on which \<^verbatim>\<open>int\<close> does not refuse the segment after the
  last underscore of the stem, the resolver returns an integer \<open>q\<close> that is not negative;
  \<open>q\<close> is 0 exactly when that segment is a quantity suffix whose decimal digits, of
  whatever script, all have the value zero, so \<open>q\<close> is at least 1 in every other case; and
  \<open>q\<close> is 1 when the stem has no quantity suffix. Lemma \<open>extract_quantity_cases\<close> shows
  that the resolver raises on every other file name.
\<close>

theorem extract_quantity_nonnegative:
  assumes "\<not> int_refuses db (splitext_root seps filename)"
  shows "\<exists>q. extract_quantity_from_filename db seps filename = Inr q \<and> 0 \<le> q
           \<and> (q = 0 \<longleftrightarrow> has_quantity_suffix db (splitext_root seps filename)
                          \<and> list_all (\<lambda>c. decimal_of db c = Some 0)
                               (last_segment (splitext_root seps filename)))
           \<and> (\<not> has_quantity_suffix db (splitext_root seps filename) \<longrightarrow> q = 1)"
proof -
  have "\<not> has_quantity_suffix db (splitext_root seps filename)
          \<longrightarrow> resolve_quantity_spec db seps filename = 1"
    by (simp add: resolve_quantity_spec_def)
  then show ?thesis
    using assms resolve_quantity_spec_nonneg [of db seps filename]
      resolve_quantity_spec_zero_iff [of db seps filename]
    by (simp add: extract_quantity_cases)
qed

theorem extract_quantity_nonnegative_witness:
  "\<not> int_refuses unicode_14 (splitext_root nt_seps (py_str ''panel_0.dxf''))
   \<and> extract_quantity_from_filename unicode_14 nt_seps (py_str ''panel_0.dxf'') = Inr 0
   \<and> \<not> int_refuses unicode_14
         (splitext_root nt_seps (py_str ''panel_'' @ [0x660] @ py_str ''.dxf''))
   \<and> extract_quantity_from_filename unicode_14 nt_seps
         (py_str ''panel_'' @ [0x660] @ py_str ''.dxf'') = Inr 0
   \<and> \<not> int_refuses unicode_14 (splitext_root nt_seps (py_str ''m'' @ [0xB2] @ py_str ''.dxf''))
   \<and> extract_quantity_from_filename unicode_14 nt_seps
         (py_str ''m'' @ [0xB2] @ py_str ''.dxf'') = Inr 1"
proof -
  let ?a = "py_str ''panel_0.dxf''"
  let ?b = "py_str ''panel_'' @ [0x660] @ py_str ''.dxf''"
  let ?c = "py_str ''m'' @ [0xB2] @ py_str ''.dxf''"
  have ha: "\<not> int_refuses unicode_14 (splitext_root nt_seps ?a)"
    and hb: "\<not> int_refuses unicode_14 (splitext_root nt_seps ?b)"
    and hc: "\<not> int_refuses unicode_14 (splitext_root nt_seps ?c)"
    by code_simp+
  have za: "has_quantity_suffix unicode_14 (splitext_root nt_seps ?a)
            \<and> list_all (\<lambda>c. decimal_of unicode_14 c = Some 0)
                 (last_segment (splitext_root nt_seps ?a))"
    by code_simp
  have zb: "has_quantity_suffix unicode_14 (splitext_root nt_seps ?b)
            \<and> list_all (\<lambda>c. decimal_of unicode_14 c = Some 0)
                 (last_segment (splitext_root nt_seps ?b))"
    by code_simp
  have sc: "\<not> has_quantity_suffix unicode_14 (splitext_root nt_seps ?c)"
    by code_simp
  from extract_quantity_nonnegative [OF ha] za
  have a: "extract_quantity_from_filename unicode_14 nt_seps ?a = Inr 0"
    by auto
  from extract_quantity_nonnegative [OF hb] zb
  have b: "extract_quantity_from_filename unicode_14 nt_seps ?b = Inr 0"
    by auto
  from extract_quantity_nonnegative [OF hc] sc
  have c: "extract_quantity_from_filename unicode_14 nt_seps ?c = Inr 1"
    by auto
  from ha hb hc a b c show ?thesis by blast
qed

text \<open>
  C4: the resolver returns the decimal value of the segment after the last underscore
  when that segment is a non-empty run of decimal digits, and 1 otherwise. The source
  tests the segment with \<^verbatim>\<open>isdigit\<close>, which also accepts the digits that are not
  decimal, and then calls \<^verbatim>\<open>int\<close>, which refuses them: on \<^verbatim>\<open>a_\<close>, U+00B2, \<^verbatim>\<open>.dxf\<close> the
  source raises ValueError where the specification asks for 1. Lemma
  \<open>extract_quantity_cases\<close> shows that the source departs from the specified resolver on
  the stems of \<open>int_refuses\<close> and on no other.
\<close>

theorem extract_quantity_superscript_raises:
  "extract_quantity_from_filename unicode_14 nt_seps (py_str ''a_'' @ [0xB2] @ py_str ''.dxf'')
     = Inl ValueError
   \<and> resolve_quantity_spec unicode_14 nt_seps (py_str ''a_'' @ [0xB2] @ py_str ''.dxf'') = 1"
  by code_simp

section \<open>Properties of the pricing\<close>

lemma price_step_row:
  "price_step cpm cpsm (g, rows) item
     = (g + total (priced_row_spec cpm cpsm item), rows @ [priced_row_spec cpm cpsm item])"
  by (simp add: price_step_def priced_row_spec_def Let_def)

lemma price_loop:
  "foldl (price_step cpm cpsm) (g, rows) data
     = (foldl (\<lambda>acc r. acc + total r) g (map (priced_row_spec cpm cpsm) data),
        rows @ map (priced_row_spec cpm cpsm) data)"
  by (induction data arbitrary: g rows) (simp_all add: price_step_row)

lemma foldl_total_sum_list:
  fixes f :: "'a \<Rightarrow> real"
  shows "foldl (\<lambda>acc r. acc + f r) a rs = a + sum_list (map f rs)"
  by (induction rs arbitrary: a) simp_all

text \<open>
  C1: for every sequence of rows and every pair of rates, the pricing loop of
  \<^verbatim>\<open>create_pdf\<close> appends, for each row and in the order of the rows, the cutting cost
  \<open>(total_length / 1000) * cost_per_meter * quantity\<close>, the material cost
  \<open>area * cost_per_square_meter * quantity\<close> and their sum; and the grand total is the sum
  of the totals of the rows, accumulated from left to right from 0.
\<close>

theorem pricing_rows_and_grand_total:
  "priced_rows data cpm cpsm = map (priced_row_spec cpm cpsm) data
   \<and> grand_total data cpm cpsm
       = foldl (\<lambda>acc r. acc + total r) 0 (priced_rows data cpm cpsm)
   \<and> grand_total data cpm cpsm = sum_list (map total (priced_rows data cpm cpsm))"
  by (simp add: priced_rows_def grand_total_def create_pdf_table_def price_loop
      foldl_total_sum_list)

theorem pricing_rows_and_grand_total_witness:
  "priced_rows [\<lparr>row_filename = ''widget_3.ext'', row_quantity = 3,
                  row_total_length = 5 + 10 * pi, row_area = 1 / 10000\<rparr>] 2 10
     = [\<lparr>priced_filename = ''widget_3.ext'', priced_quantity = 3,
          priced_total_length = 5 + 10 * pi, priced_area = 1 / 10000,
          cutting_cost = (5 + 10 * pi) / 1000 * 2 * 3, material_cost = 3 / 1000,
          total = (5 + 10 * pi) / 1000 * 2 * 3 + 3 / 1000\<rparr>]
   \<and> grand_total [\<lparr>row_filename = ''widget_3.ext'', row_quantity = 3,
                   row_total_length = 5 + 10 * pi, row_area = 1 / 10000\<rparr>] 2 10
     = (5 + 10 * pi) / 1000 * 2 * 3 + 3 / 1000"
  using pricing_rows_and_grand_total
    [of "[\<lparr>row_filename = ''widget_3.ext'', row_quantity = 3,
            row_total_length = 5 + 10 * pi, row_area = 1 / 10000\<rparr>]" 2 10]
  by (simp add: priced_row_spec_def)

section \<open>Properties of the rounding\<close>

text \<open>
  Rounding to the nearest double is monotone, commutes with the sign and leaves zero
  alone; \<open>binary64_eval\<close> computes it on a number whose binade is known.
\<close>

lemma pow2_powr: "pow2 k = 2 powr of_int k"
proof (cases "0 \<le> k")
  case True
  then have "(2::real) powr of_int k = 2 powr real (nat k)" by simp
  also have "\<dots> = 2 ^ nat k" by (simp only: powr_realpow zero_less_numeral)
  finally show ?thesis using True by (simp add: pow2_def)
next
  case False
  then have "(2::real) powr of_int k = 2 powr (- real (nat (- k)))" by simp
  also have "\<dots> = 1 / 2 powr real (nat (- k))" by (simp only: powr_minus_divide)
  also have "\<dots> = 1 / 2 ^ nat (- k)" by (simp only: powr_realpow zero_less_numeral)
  finally show ?thesis using False by (simp add: pow2_def)
qed

lemma rhe_bounds: "\<lfloor>x\<rfloor> \<le> round_half_even x" "round_half_even x \<le> \<lfloor>x\<rfloor> + 1"
  by (simp_all add: round_half_even_def Let_def)

lemma rhe_of_int: "round_half_even (of_int n) = n"
  by (simp add: round_half_even_def)

lemma rhe_mono: "x \<le> y \<Longrightarrow> round_half_even x \<le> round_half_even y"
proof (cases "\<lfloor>x\<rfloor> = \<lfloor>y\<rfloor>")
  case False
  assume "x \<le> y"
  then have "\<lfloor>x\<rfloor> \<le> \<lfloor>y\<rfloor>" by (rule floor_mono)
  with False have "\<lfloor>x\<rfloor> + 1 \<le> \<lfloor>y\<rfloor>" by simp
  with rhe_bounds(2) [of x] rhe_bounds(1) [of y] show ?thesis by linarith
next
  case True
  assume "x \<le> y"
  then have "x - of_int \<lfloor>y\<rfloor> \<le> y - of_int \<lfloor>y\<rfloor>" by simp
  with True show ?thesis
    by (auto simp: round_half_even_def Let_def)
qed

lemma rhe_minus: "round_half_even (- x) = - round_half_even x"
proof (cases "x = of_int \<lfloor>x\<rfloor>")
  case True
  then obtain n where "x = of_int n" ..
  then have "- x = of_int (- n)" by simp
  then show ?thesis
    unfolding \<open>x = of_int n\<close> by (metis rhe_of_int)
next
  case False
  have lt: "of_int \<lfloor>x\<rfloor> < x"
    using False of_int_floor_le [of x] by (auto simp: less_le)
  have fl: "\<lfloor>- x\<rfloor> = - \<lfloor>x\<rfloor> - 1"
  proof (rule floor_unique)
    show "of_int (- \<lfloor>x\<rfloor> - 1) \<le> - x"
      using floor_correct [of x] by simp linarith
    show "- x < of_int (- \<lfloor>x\<rfloor> - 1) + 1"
      using lt by simp
  qed
  have ev: "even (- \<lfloor>x\<rfloor> - 1) \<longleftrightarrow> odd \<lfloor>x\<rfloor>" by simp
  show ?thesis
    unfolding round_half_even_def Let_def fl ev
    by (auto simp: algebra_simps)
qed

lemma ulp_pos: "0 < (2::real) powr of_int (ulp_exponent x)"
  by simp

lemma binary64_minus: "binary64 (- x) = - binary64 x"
  by (simp add: binary64_def ulp_exponent_def Let_def rhe_minus)

lemma binary64_zero: "binary64 0 = 0"
  by (simp add: binary64_def)

lemma binary64_nonneg: "0 \<le> x \<Longrightarrow> 0 \<le> binary64 x"
proof -
  assume "0 \<le> x"
  then have "0 \<le> x / 2 powr of_int (ulp_exponent x)" by simp
  then have "round_half_even 0 \<le> round_half_even (x / 2 powr of_int (ulp_exponent x))"
    by (rule rhe_mono)
  then have "0 \<le> round_half_even (x / 2 powr of_int (ulp_exponent x))"
    using rhe_of_int [of 0] by simp
  then show ?thesis
    by (simp add: binary64_def Let_def pow2_powr)
qed

lemma below_next_binade:
  assumes "0 < x"
  shows "x < 2 powr of_int (ulp_exponent x + 53)"
proof -
  have "log 2 x < of_int (\<lfloor>log 2 x\<rfloor> + 1)"
    using floor_correct [of "log 2 x"] by simp
  also have "\<dots> \<le> of_int (ulp_exponent x + 53)"
    using assms by (simp add: ulp_exponent_def)
  finally have "log 2 x < of_int (ulp_exponent x + 53)" .
  then show ?thesis
    using assms by (simp add: log_less_iff)
qed

lemma binary64_upper:
  assumes "0 < x"
  shows "binary64 x \<le> 2 powr of_int (ulp_exponent x + 53)"
proof -
  let ?u = "(2::real) powr of_int (ulp_exponent x)"
  have split: "2 powr of_int (ulp_exponent x + 53) = 2 ^ 53 * ?u"
    by (simp add: powr_add)
  have "x < 2 ^ 53 * ?u"
    using below_next_binade [OF assms] unfolding split .
  then have "x / ?u \<le> 2 ^ 53"
    by (simp add: pos_divide_le_eq)
  then have "x / ?u \<le> of_int (2 ^ 53)" by simp
  then have "round_half_even (x / ?u) \<le> round_half_even (of_int (2 ^ 53))"
    by (rule rhe_mono)
  then have "round_half_even (x / ?u) \<le> 2 ^ 53"
    by (simp only: rhe_of_int)
  then have "of_int (round_half_even (x / ?u)) \<le> (2::real) ^ 53"
    by (metis of_int_le_iff of_int_numeral of_int_power)
  then have le: "of_int (round_half_even (x / ?u)) * ?u \<le> 2 ^ 53 * ?u"
    by (simp add: mult_right_mono)
  have b: "binary64 x = of_int (round_half_even (x / ?u)) * ?u"
    using assms by (simp add: binary64_def Let_def pow2_powr)
  show ?thesis
    unfolding b split by (rule le)
qed

lemma binary64_lower:
  assumes "0 < x" "- 1022 \<le> \<lfloor>log 2 x\<rfloor>"
  shows "2 powr of_int (ulp_exponent x + 52) \<le> binary64 x"
proof -
  let ?u = "(2::real) powr of_int (ulp_exponent x)"
  have e: "ulp_exponent x + 52 = \<lfloor>log 2 x\<rfloor>"
    using assms by (simp add: ulp_exponent_def)
  have split: "2 powr of_int (ulp_exponent x + 52) = 2 ^ 52 * ?u"
    by (simp add: powr_add)
  have "of_int \<lfloor>log 2 x\<rfloor> \<le> log 2 x" by simp
  then have "2 powr of_int \<lfloor>log 2 x\<rfloor> \<le> x"
    using assms(1) le_log_iff [of 2 x "of_int \<lfloor>log 2 x\<rfloor>"] by simp
  then have "2 powr of_int (ulp_exponent x + 52) \<le> x"
    by (simp only: e)
  then have "2 ^ 52 * ?u \<le> x"
    unfolding split .
  then have "2 ^ 52 \<le> x / ?u"
    by (simp add: pos_le_divide_eq)
  then have "of_int (2 ^ 52) \<le> x / ?u" by simp
  then have "round_half_even (of_int (2 ^ 52)) \<le> round_half_even (x / ?u)"
    by (rule rhe_mono)
  then have "2 ^ 52 \<le> round_half_even (x / ?u)"
    by (simp only: rhe_of_int)
  then have "(2::real) ^ 52 \<le> of_int (round_half_even (x / ?u))"
    by (metis of_int_le_iff of_int_numeral of_int_power)
  then have le: "2 ^ 52 * ?u \<le> of_int (round_half_even (x / ?u)) * ?u"
    by (simp add: mult_right_mono)
  have b: "binary64 x = of_int (round_half_even (x / ?u)) * ?u"
    using assms by (simp add: binary64_def Let_def pow2_powr)
  show ?thesis
    unfolding b split by (rule le)
qed

lemma ulp_exponent_mono: "0 < x \<Longrightarrow> x \<le> y \<Longrightarrow> ulp_exponent x \<le> ulp_exponent y"
proof -
  assume "0 < x" "x \<le> y"
  then have "log 2 x \<le> log 2 y" by simp
  then have "\<lfloor>log 2 x\<rfloor> \<le> \<lfloor>log 2 y\<rfloor>" by (rule floor_mono)
  with \<open>0 < x\<close> \<open>x \<le> y\<close> show ?thesis
    by (simp add: ulp_exponent_def)
qed

lemma binary64_mono_pos:
  assumes "0 < x" "x \<le> y"
  shows "binary64 x \<le> binary64 y"
proof (cases "ulp_exponent x = ulp_exponent y")
  case True
  let ?u = "(2::real) powr of_int (ulp_exponent y)"
  have "x / ?u \<le> y / ?u"
    using assms(2) by (simp add: divide_right_mono)
  then have "round_half_even (x / ?u) \<le> round_half_even (y / ?u)"
    by (rule rhe_mono)
  then have "of_int (round_half_even (x / ?u)) * ?u \<le> of_int (round_half_even (y / ?u)) * ?u"
    by (simp add: mult_right_mono)
  with assms True show ?thesis
    by (simp add: binary64_def Let_def pow2_powr)
next
  case False
  with ulp_exponent_mono [OF assms] have lt: "ulp_exponent x < ulp_exponent y" by simp
  have y: "0 < y" using assms by simp
  have "- 1022 - 52 \<le> ulp_exponent x"
    by (simp add: ulp_exponent_def)
  with lt have "- 1022 - 52 < ulp_exponent y" by simp
  moreover have "ulp_exponent y = max \<lfloor>log 2 y\<rfloor> (- 1022) - 52"
    using y by (simp add: ulp_exponent_def)
  ultimately have ly: "- 1022 \<le> \<lfloor>log 2 y\<rfloor>"
    by linarith
  have "binary64 x \<le> 2 powr of_int (ulp_exponent x + 53)"
    by (rule binary64_upper [OF assms(1)])
  also have "\<dots> \<le> 2 powr of_int (ulp_exponent y + 52)"
    using lt by simp
  also have "\<dots> \<le> binary64 y"
    by (rule binary64_lower [OF y ly])
  finally show ?thesis .
qed

lemma binary64_mono: "mono binary64"
proof (rule monoI)
  fix x y :: real
  assume le: "x \<le> y"
  consider "0 < x" | "x \<le> 0" "0 \<le> y" | "y < 0" by linarith
  then show "binary64 x \<le> binary64 y"
  proof cases
    case 1
    then show ?thesis using le by (rule binary64_mono_pos)
  next
    case 2
    have "0 \<le> binary64 (- x)" using 2(1) by (intro binary64_nonneg) simp
    then have "binary64 x \<le> 0" by (simp add: binary64_minus)
    moreover have "0 \<le> binary64 y" using 2(2) by (rule binary64_nonneg)
    ultimately show ?thesis by simp
  next
    case 3
    then have "0 < - y" "- y \<le> - x" using le by simp_all
    then have "binary64 (- y) \<le> binary64 (- x)" by (rule binary64_mono_pos)
    then show ?thesis by (simp add: binary64_minus)
  qed
qed

lemma binary64_eval:
  assumes "pow2 e \<le> \<bar>x\<bar>" "\<bar>x\<bar> < pow2 (e + 1)" "- 1022 \<le> e"
  shows "binary64 x = of_int (round_half_even (x / pow2 (e - 52))) * pow2 (e - 52)"
proof -
  note a = assms(1,2) [unfolded pow2_powr]
  have pos: "0 < \<bar>x\<bar>"
    using a(1) by (smt (verit) powr_gt_zero)
  have "of_int e \<le> log 2 \<bar>x\<bar>"
    using a(1) pos le_log_iff [of 2 "\<bar>x\<bar>" "of_int e"] by simp
  moreover have "log 2 \<bar>x\<bar> < of_int e + 1"
    using a(2) pos log_less_iff [of 2 "\<bar>x\<bar>" "of_int (e + 1)"] by simp
  ultimately have "\<lfloor>log 2 \<bar>x\<bar>\<rfloor> = e"
    by (simp add: floor_unique)
  then have "ulp_exponent x = e - 52"
    using assms(3) by (simp add: ulp_exponent_def)
  moreover have "x \<noteq> 0" using pos by simp
  ultimately show ?thesis
    by (simp add: binary64_def Let_def)
qed

lemma binary64_double_0_1: "binary64 double_0_1 = double_0_1"
  unfolding double_0_1_def
  by (subst binary64_eval [of "- 4"]) (simp_all add: round_half_even_def Let_def pow2_def)

lemma binary64_double_0_7: "binary64 double_0_7 = double_0_7"
  unfolding double_0_7_def
  by (subst binary64_eval [of "- 1"]) (simp_all add: round_half_even_def Let_def pow2_def)

lemma binary64_double_two_pi: "binary64 double_two_pi = double_two_pi"
  unfolding double_two_pi_def
  by (subst binary64_eval [of 2]) (simp_all add: round_half_even_def Let_def pow2_def)

lemma double_circle_left: "binary64 (double_0_1 - double_0_3) = - (7205759403792793 / 2 ^ 55)"
  unfolding double_0_1_def double_0_3_def
  by (subst binary64_eval [of "- 3"]) (simp_all add: round_half_even_def Let_def pow2_def)

lemma double_circle_right: "binary64 (double_0_1 + double_0_3) = 7205759403792794 / 2 ^ 54"
  unfolding double_0_1_def double_0_3_def
  by (subst binary64_eval [of "- 2"]) (simp_all add: round_half_even_def Let_def pow2_def)

lemma double_circle_bottom: "binary64 (double_0_7 - double_0_3) = 7205759403792793 / 2 ^ 54"
  unfolding double_0_7_def double_0_3_def
  by (subst binary64_eval [of "- 2"]) (simp_all add: round_half_even_def Let_def pow2_def)

lemma double_circle_top: "binary64 (double_0_7 + double_0_3) = 1"
  unfolding double_0_7_def double_0_3_def
  by (subst binary64_eval [of "- 1"]) (simp_all add: round_half_even_def Let_def pow2_def)

lemma double_circle_height:
  "binary64 (1 - 7205759403792793 / 2 ^ 54) = 5404319552844596 / 2 ^ 53"
  by (subst binary64_eval [of "- 1"]) (simp_all add: round_half_even_def Let_def pow2_def)

lemma double_sweep_difference:
  "binary64 (double_radians_below_90 - double_radians_90) = - (1 / 2 ^ 52)"
  unfolding double_radians_below_90_def double_radians_90_def
  by (subst binary64_eval [of "- 52"]) (simp_all add: round_half_even_def Let_def pow2_def)

lemma double_sweep_sum: "binary64 (- (1 / 2 ^ 52) + double_two_pi) = double_two_pi"
  unfolding double_two_pi_def
  by (subst binary64_eval [of 2]) (simp_all add: round_half_even_def Let_def pow2_def)

section \<open>Properties of the lengths\<close>

subsection \<open>Arcs\<close>

lemma arc_sweep_same: "arc_sweep a a = 0"
  by (simp add: arc_sweep_def)

lemma arc_sweep_rounded_id:
  "arc_sweep sa ea = sweep_rounded id (2 * pi) (radians sa) (radians ea)"
  by (simp add: arc_sweep_def sweep_rounded_def Let_def)

lemma sweep_rounded_bounds:
  assumes "mono rnd" "rnd 0 = 0" "rnd two_pi = two_pi" "0 \<le> two_pi"
  shows "(- two_pi \<le> rnd (b - a) \<and> rnd (b - a) \<le> two_pi
            \<longrightarrow> 0 \<le> sweep_rounded rnd two_pi a b \<and> sweep_rounded rnd two_pi a b \<le> two_pi)
       \<and> (two_pi < rnd (b - a) \<longrightarrow> sweep_rounded rnd two_pi a b = rnd (b - a))
       \<and> (rnd (b - a) < - two_pi \<longrightarrow> sweep_rounded rnd two_pi a b \<le> 0)
       \<and> sweep_rounded rnd two_pi a a = 0"
proof -
  define angle where "angle = rnd (b - a)"
  have neg: "0 \<le> rnd (angle + two_pi) \<and> rnd (angle + two_pi) \<le> two_pi"
    if "angle < 0" "- two_pi \<le> angle"
  proof -
    have "rnd 0 \<le> rnd (angle + two_pi)"
      using that(2) by (intro monoD [OF assms(1)]) simp
    moreover have "rnd (angle + two_pi) \<le> rnd two_pi"
      using that(1) by (intro monoD [OF assms(1)]) simp
    ultimately show ?thesis
      using assms(2,3) by simp
  qed
  have low: "rnd (angle + two_pi) \<le> 0" if "angle < - two_pi"
  proof -
    have "rnd (angle + two_pi) \<le> rnd 0"
      using that by (intro monoD [OF assms(1)]) simp
    then show ?thesis using assms(2) by simp
  qed
  have one: "- two_pi \<le> angle \<and> angle \<le> two_pi
      \<longrightarrow> 0 \<le> sweep_rounded rnd two_pi a b \<and> sweep_rounded rnd two_pi a b \<le> two_pi"
    using neg by (auto simp: sweep_rounded_def Let_def simp flip: angle_def)
  have two: "two_pi < angle \<longrightarrow> sweep_rounded rnd two_pi a b = angle"
    using assms(4) by (auto simp: sweep_rounded_def Let_def simp flip: angle_def)
  have three: "angle < - two_pi \<longrightarrow> sweep_rounded rnd two_pi a b \<le> 0"
    using low assms(4) by (auto simp: sweep_rounded_def Let_def simp flip: angle_def)
  have four: "sweep_rounded rnd two_pi a a = 0"
    using assms(2) by (simp add: sweep_rounded_def)
  from one two three four show ?thesis
    unfolding angle_def by blast
qed

lemma arc_sweep_closed_range:
  "(0 \<le> arc_sweep sa ea \<and> arc_sweep sa ea \<le> 2 * pi)
     \<longleftrightarrow> (- (2 * pi) \<le> radians ea - radians sa \<and> radians ea - radians sa \<le> 2 * pi)"
  using pi_gt_zero by (auto simp: arc_sweep_def Let_def)

text \<open>
  C2, as the specification states it: the sweep of every arc lies in \<open>[0, 2\<pi>)\<close>. The source
  adds one full turn when the difference is negative and does nothing else: an arc from
  0 to 360 degrees, the full circle, has the sweep \<open>2\<pi>\<close>.
\<close>

theorem arc_sweep_full_turn_counterexample: "\<not> arc_sweep 0 360 < 2 * pi"
  by (simp add: arc_sweep_def radians_def)

text \<open>
  C2, amended: the length of an arc is its radius times its sweep, where the sweep is the
  end angle minus the start angle in radians, plus \<open>2\<pi>\<close> once when that difference is
  negative. The sweep lies in the closed interval \<open>[0, 2\<pi>]\<close> exactly when the difference
  lies in \<open>[-2\<pi>, 2\<pi>]\<close>, and the bound \<open>2\<pi>\<close> is reached; a difference above \<open>2\<pi>\<close> is
  returned as it is, and a difference below \<open>-2\<pi>\<close> gives a sweep that is not positive.
  An arc whose two angles are equal has sweep 0 and length 0. The bounds are proved for
  the exact arithmetic and for every monotone rounding that leaves 0 and \<open>2\<pi>\<close> alone, so
  for the doubles: there a difference of \<open>-1 / 2 ^ 52\<close> between the angles, which lies well
  inside one turn, already gives the sweep \<open>2\<pi>\<close> (the witness).
\<close>

theorem arc_length_sweep:
  assumes "dxf_radius e = Some r" "dxf_start_angle e = Some sa" "dxf_end_angle e = Some ea"
    and "mono rnd" "rnd 0 = 0" "rnd two_pi = two_pi" "0 \<le> two_pi"
  shows "calculate_arc_length e = Inr (r * arc_sweep sa ea)
     \<and> arc_sweep sa ea = (if radians ea - radians sa < 0 then radians ea - radians sa + 2 * pi
                           else radians ea - radians sa)
     \<and> arc_sweep sa ea = sweep_rounded id (2 * pi) (radians sa) (radians ea)
     \<and> ((0 \<le> arc_sweep sa ea \<and> arc_sweep sa ea \<le> 2 * pi)
          \<longleftrightarrow> (- (2 * pi) \<le> radians ea - radians sa \<and> radians ea - radians sa \<le> 2 * pi))
     \<and> (- two_pi \<le> rnd (b - a) \<and> rnd (b - a) \<le> two_pi
          \<longrightarrow> 0 \<le> sweep_rounded rnd two_pi a b \<and> sweep_rounded rnd two_pi a b \<le> two_pi)
     \<and> (two_pi < rnd (b - a) \<longrightarrow> sweep_rounded rnd two_pi a b = rnd (b - a))
     \<and> (rnd (b - a) < - two_pi \<longrightarrow> sweep_rounded rnd two_pi a b \<le> 0)
     \<and> sweep_rounded rnd two_pi a a = 0
     \<and> (sa = ea \<longrightarrow> arc_sweep sa ea = 0 \<and> calculate_arc_length e = Inr 0)"
proof -
  have len: "calculate_arc_length e = Inr (r * arc_sweep sa ea)"
    using assms(1,2,3) by (simp add: calculate_arc_length_def attr_def)
  have sw: "arc_sweep sa ea = (if radians ea - radians sa < 0
                               then radians ea - radians sa + 2 * pi
                               else radians ea - radians sa)"
    by (simp add: arc_sweep_def Let_def)
  have same: "sa = ea \<longrightarrow> arc_sweep sa ea = 0 \<and> calculate_arc_length e = Inr 0"
    using len arc_sweep_same [of ea] by simp
  from len sw arc_sweep_rounded_id [of sa ea] arc_sweep_closed_range [of sa ea]
    sweep_rounded_bounds [OF assms(4,5,6,7), of b a] same
  show ?thesis by blast
qed

theorem arc_length_sweep_witness:
  "calculate_arc_length
     ((no_entity ''ARC'')\<lparr>dxf_radius := Some 2, dxf_start_angle := Some 90,
                           dxf_end_angle := Some 0\<rparr>) = Inr (3 * pi)
   \<and> 0 \<le> arc_sweep 90 0 \<and> arc_sweep 90 0 \<le> 2 * pi
   \<and> binary64 (double_radians_below_90 - double_radians_90) < 0
   \<and> - double_two_pi \<le> binary64 (double_radians_below_90 - double_radians_90)
   \<and> sweep_rounded binary64 double_two_pi double_radians_90 double_radians_below_90
       \<le> double_two_pi
   \<and> sweep_rounded binary64 double_two_pi double_radians_90 double_radians_below_90
       = double_two_pi
   \<and> calculate_arc_length
       ((no_entity ''ARC'')\<lparr>dxf_radius := Some 2, dxf_start_angle := Some 45,
                             dxf_end_angle := Some 45\<rparr>) = Inr 0"
proof -
  let ?a = "(no_entity ''ARC'')\<lparr>dxf_radius := Some 2, dxf_start_angle := Some 90,
                                  dxf_end_angle := Some 0\<rparr>"
  let ?b = "(no_entity ''ARC'')\<lparr>dxf_radius := Some 2, dxf_start_angle := Some 45,
                                  dxf_end_angle := Some 45\<rparr>"
  have a: "dxf_radius ?a = Some 2" "dxf_start_angle ?a = Some 90" "dxf_end_angle ?a = Some 0"
    by (simp_all add: no_entity_def)
  have b: "dxf_radius ?b = Some 2" "dxf_start_angle ?b = Some 45" "dxf_end_angle ?b = Some 45"
    by (simp_all add: no_entity_def)
  have tp: "0 \<le> double_two_pi"
    by (simp add: double_two_pi_def)
  have d: "binary64 (double_radians_below_90 - double_radians_90) < 0"
    "- double_two_pi \<le> binary64 (double_radians_below_90 - double_radians_90)"
    "binary64 (double_radians_below_90 - double_radians_90) \<le> double_two_pi"
    by (simp_all add: double_sweep_difference double_two_pi_def)
  note ta = arc_length_sweep [OF a binary64_mono binary64_zero binary64_double_two_pi tp,
      of double_radians_below_90 double_radians_90]
  note tb = arc_length_sweep [OF b binary64_mono binary64_zero binary64_double_two_pi tp]
  have sw: "arc_sweep 90 0 = 3 * pi / 2"
    using ta by (simp add: radians_def)
  from ta have l: "calculate_arc_length ?a = Inr (3 * pi)"
    by (simp only: sw) simp
  have r: "0 \<le> arc_sweep 90 0 \<and> arc_sweep 90 0 \<le> 2 * pi"
    by (simp add: sw)
  from ta d have s: "sweep_rounded binary64 double_two_pi double_radians_90
                       double_radians_below_90 \<le> double_two_pi"
    by blast
  have c: "- (1 / 2 ^ 52) < (0::real)" by simp
  have v: "sweep_rounded binary64 double_two_pi double_radians_90 double_radians_below_90
             = double_two_pi"
    unfolding sweep_rounded_def Let_def double_sweep_difference
    by (simp only: c if_True double_sweep_sum)
  from tb have z: "calculate_arc_length ?b = Inr 0"
    by simp
  from l r d(1,2) s v z show ?thesis by blast
qed

subsection \<open>Polylines\<close>

lemma foldl_add_sum:
  fixes f :: "nat \<Rightarrow> real"
  shows "foldl (\<lambda>acc i. acc + f i) a [0..<n] = a + (\<Sum>i<n. f i)"
  by (induction n) simp_all

lemma hypot_distance: "hypot (fst q - fst p) (snd q - snd p) = distance p q"
  by (simp add: hypot_def distance_def)

lemma consecutive_distances_sum:
  "consecutive_distances ps = (\<Sum>i<length ps - 1. distance (ps ! i) (ps ! (i + 1)))"
proof -
  have len: "length (zip ps (tl ps)) = length ps - 1" by simp
  have "consecutive_distances ps
      = (\<Sum>i<length ps - 1. case zip ps (tl ps) ! i of (p, q) \<Rightarrow> distance p q)"
    unfolding consecutive_distances_def
    by (simp add: sum_list_sum_nth atLeast0LessThan)
  also have "\<dots> = (\<Sum>i<length ps - 1. distance (ps ! i) (ps ! (i + 1)))"
  proof (rule sum.cong)
    fix i assume "i \<in> {..<length ps - 1}"
    then have i: "i < length ps - 1" by simp
    then have "zip ps (tl ps) ! i = (ps ! i, ps ! Suc i)"
      by (simp add: nth_tl)
    then show "(case zip ps (tl ps) ! i of (p, q) \<Rightarrow> distance p q)
             = distance (ps ! i) (ps ! (i + 1))"
      by simp
  qed simp
  finally show ?thesis .
qed

lemma segments_length_consecutive: "segments_length ps = consecutive_distances ps"
  by (simp add: segments_length_def hypot_distance foldl_add_sum consecutive_distances_sum)

lemma distance_self: "distance p p = 0"
  by (simp add: distance_def)

lemma polyline_length_value:
  assumes "get_points e = Some ps" "closed e = Some c"
  shows "calculate_polyline_length e =
           (if c then (if ps = [] then Inl IndexError
                       else Inr (consecutive_distances ps + distance (last ps) (hd ps)))
            else Inr (consecutive_distances ps))"
  using assms
  by (simp add: calculate_polyline_length_def attr_def Let_def segments_length_consecutive
      hypot_distance)

lemma polyline_length_cases:
  assumes "get_points e = Some ps" "closed e = Some c"
  shows "calculate_polyline_length e =
           (if c then (if ps = [] then Inl IndexError
                       else Inr (consecutive_distances ps + distance (last ps) (hd ps)))
            else Inr (consecutive_distances ps))
         \<and> (length ps \<le> 1 \<and> \<not> (c \<and> ps = []) \<longrightarrow> calculate_polyline_length e = Inr 0)
         \<and> (length ps \<le> 1 \<and> dxftype e \<in> set [''LWPOLYLINE'', ''POLYLINE'']
              \<longrightarrow> length_step total_length e = total_length)"
proof -
  note v = polyline_length_value [OF assms]
  have short: "calculate_polyline_length e = Inr 0"
    if "length ps \<le> 1" "\<not> (c \<and> ps = [])"
  proof (cases ps)
    case Nil
    with that v show ?thesis by (simp add: consecutive_distances_def)
  next
    case (Cons p qs)
    with that have "ps = [p]" by simp
    with v show ?thesis by (simp add: consecutive_distances_def distance_self)
  qed
  have step: "length_step total_length e = total_length"
    if "length ps \<le> 1" "dxftype e \<in> set [''LWPOLYLINE'', ''POLYLINE'']"
  proof (cases "c \<and> ps = []")
    case True
    with v have "calculate_polyline_length e = Inl IndexError" by simp
    with that(2) show ?thesis
      by (auto simp: length_step_def entity_length_def)
  next
    case False
    with short that(1) have "calculate_polyline_length e = Inr 0" by simp
    with that(2) show ?thesis
      by (auto simp: length_step_def entity_length_def)
  qed
  from v short step show ?thesis by blast
qed

lemma polyline_length_examples:
  "calculate_polyline_length
     ((no_entity ''LWPOLYLINE'')\<lparr>get_points := Some [(0, 0), (3, 0), (3, 4)],
                                  closed := Some True\<rparr>) = Inr 12
   \<and> calculate_polyline_length
     ((no_entity ''LWPOLYLINE'')\<lparr>get_points := Some [(0, 0), (3, 0), (3, 4)],
                                  closed := Some False\<rparr>) = Inr 7
   \<and> calculate_polyline_length
     ((no_entity ''LWPOLYLINE'')\<lparr>get_points := Some [(3, 4)], closed := Some True\<rparr>) = Inr 0
   \<and> length_step 7
     ((no_entity ''LWPOLYLINE'')\<lparr>get_points := Some [], closed := Some True\<rparr>) = 7"
proof -
  let ?tri = "[(0, 0), (3, 0), (3, 4)] :: point list"
  let ?c = "(no_entity ''LWPOLYLINE'')\<lparr>get_points := Some ?tri, closed := Some True\<rparr>"
  let ?o = "(no_entity ''LWPOLYLINE'')\<lparr>get_points := Some ?tri, closed := Some False\<rparr>"
  let ?one = "(no_entity ''LWPOLYLINE'')\<lparr>get_points := Some [(3, 4)], closed := Some True\<rparr>"
  let ?none = "(no_entity ''LWPOLYLINE'')\<lparr>get_points := Some [], closed := Some True\<rparr>"
  have c: "get_points ?c = Some ?tri" "closed ?c = Some True"
    and o: "get_points ?o = Some ?tri" "closed ?o = Some False"
    and one: "get_points ?one = Some [(3, 4)]" "closed ?one = Some True"
    and none: "get_points ?none = Some []" "closed ?none = Some True"
    and ty: "dxftype ?none \<in> set [''LWPOLYLINE'', ''POLYLINE'']"
    by (simp_all add: no_entity_def)
  have d: "consecutive_distances ?tri = 7" "distance (3, 4) (0, 0) = 5"
    by (simp_all add: consecutive_distances_def distance_def)
  from polyline_length_cases [OF c] d have "calculate_polyline_length ?c = Inr 12"
    by simp
  moreover from polyline_length_cases [OF o] d have "calculate_polyline_length ?o = Inr 7"
    by simp
  moreover from polyline_length_cases [OF one, of 0] have "calculate_polyline_length ?one = Inr 0"
    by (simp add: consecutive_distances_def distance_def)
  moreover from polyline_length_cases [OF none, of 7] ty have "length_step 7 ?none = 7"
    by (simp add: no_entity_def)
  ultimately show ?thesis by simp
qed

text \<open>
  C5: the length of a path that is not closed is the sum of the distances between
  consecutive vertices, a closed path adds the one edge from the last vertex to the
  first, and a path with no vertex or one vertex has length 0 for either value of
  \<open>closed\<close>. Lemma \<open>polyline_length_cases\<close> proves this of
  \<^verbatim>\<open>calculate_polyline_length\<close> on every path but one: on a closed path without
  vertices the source reads \<^verbatim>\<open>points[-1]\<close> and raises IndexError instead of returning 0.
  The other readers of a list of points take the empty list without error: the same
  function on the path that is not closed, the loop of the spline and
  \<^verbatim>\<open>get_entity_vertices\<close>. The handler of \<^verbatim>\<open>calculate_total_length\<close> catches the
  error, so the total length of the drawing is what the length 0 would give.
\<close>

theorem closed_empty_polyline_raises:
  "calculate_polyline_length
     ((no_entity ''LWPOLYLINE'')\<lparr>get_points := Some [], closed := Some True\<rparr>)
     = Inl IndexError
   \<and> calculate_polyline_length
     ((no_entity ''LWPOLYLINE'')\<lparr>get_points := Some [], closed := Some False\<rparr>) = Inr 0
   \<and> calculate_spline_length ((no_entity ''SPLINE'')\<lparr>approximate := Some []\<rparr>) = Inr 0
   \<and> get_entity_vertices
     ((no_entity ''LWPOLYLINE'')\<lparr>get_points := Some [], closed := Some True\<rparr>) = Inr []
   \<and> length_step 7
     ((no_entity ''LWPOLYLINE'')\<lparr>get_points := Some [], closed := Some True\<rparr>) = 7"
  by (simp add: calculate_polyline_length_def calculate_spline_length_def
      get_entity_vertices_def length_step_def entity_length_def segments_length_def
      no_entity_def attr_def)

section \<open>Properties of the bounding box\<close>

subsection \<open>The running minimum and maximum\<close>

lemma box_of_points_Nil: "box_of_points [] = empty_bbox"
  by (simp add: box_of_points_def)

lemma merge_point_box: "merge_point (box_of_points qs) p = box_of_points (qs @ [p])"
proof (cases "qs = []")
  case True
  then show ?thesis
    by (simp add: box_of_points_def merge_point_def empty_bbox_def)
next
  case False
  then have ne: "fst ` set qs \<noteq> {}" "snd ` set qs \<noteq> {}" by simp_all
  have fin: "finite (fst ` set qs)" "finite (snd ` set qs)" by simp_all
  show ?thesis
    using False Min_insert [OF fin(1) ne(1)] Min_insert [OF fin(2) ne(2)]
      Max_insert [OF fin(1) ne(1)] Max_insert [OF fin(2) ne(2)]
    by (simp add: box_of_points_def merge_point_def min.commute max.commute)
qed

lemma merge_points_box: "foldl merge_point (box_of_points qs) ps = box_of_points (qs @ ps)"
proof (induction ps arbitrary: qs)
  case Nil
  show ?case by simp
next
  case (Cons p ps)
  show ?case
    using Cons.IH [of "qs @ [p]"] by (simp add: merge_point_box)
qed

lemma extent_points_Nil: "extent_points [] = []"
  by (simp add: extent_points_def)

lemma extent_points_Cons: "extent_points (e # es) = extent_points [e] @ extent_points es"
  by (simp add: extent_points_def)

lemma extent_points_append: "extent_points (xs @ ys) = extent_points xs @ extent_points ys"
  by (simp add: extent_points_def)

lemma bbox_step_box: "bbox_step (box_of_points qs) e = box_of_points (qs @ extent_points [e])"
  by (simp add: bbox_step_def extent_points_def merge_points_box split: sum.split)

lemma bbox_loop_box: "foldl bbox_step (box_of_points qs) msp = box_of_points (qs @ extent_points msp)"
proof (induction msp arbitrary: qs)
  case Nil
  show ?case by (simp add: extent_points_Nil)
next
  case (Cons e es)
  show ?case
    using Cons.IH [of "qs @ extent_points [e]"] extent_points_Cons [of e es]
    by (simp add: bbox_step_box)
qed

lemma bounding_box_points: "bounding_box msp = box_of_points (extent_points msp)"
  using bbox_loop_box [of "[]" msp] by (simp add: bounding_box_def box_of_points_Nil)

lemma bbox_area_box:
  "bbox_area (box_of_points ps) =
     (if ps = [] then 0
      else (Max (fst ` set ps) - Min (fst ` set ps)) * (Max (snd ` set ps) - Min (snd ` set ps))
           / 1000000)"
  by (simp add: bbox_area_def box_of_points_def empty_bbox_def Let_def)

lemma widget_points:
  "extent_points widget = [(0, 0), (3, 4), (- 5, 0), (5, 0), (0, - 5), (0, 5)]"
  by (simp add: widget_def extent_points_def get_entity_vertices_def no_entity_def attr_def)

lemma widget_length: "calculate_total_length widget = 5 + 10 * pi"
  by (simp add: widget_def calculate_total_length_def length_step_def entity_length_def
      calculate_line_length_def calculate_circle_length_def no_entity_def attr_def hypot_def)


text \<open>
  C6: the box of a drawing is the least and the greatest coordinate, on each axis, of the
  points that \<^verbatim>\<open>get_entity_vertices\<close> returns over the whole drawing; the area is
  \<open>(max_x - min_x) * (max_y - min_y) / 1000000\<close> when there is at least one such point and
  0 otherwise; a drawing without entities has total length 0 and area 0.
\<close>

theorem bounding_box_area_formula:
  "bounding_box msp = box_of_points (extent_points msp)
   \<and> calculate_bounding_box_area msp =
       (if extent_points msp = [] then 0
        else (Max (fst ` set (extent_points msp)) - Min (fst ` set (extent_points msp)))
             * (Max (snd ` set (extent_points msp)) - Min (snd ` set (extent_points msp)))
             / 1000000)
   \<and> calculate_total_length [] = 0
   \<and> calculate_bounding_box_area [] = 0"
  by (simp add: bounding_box_points calculate_bounding_box_area_def bbox_area_box
      calculate_total_length_def extent_points_Nil)

theorem bounding_box_area_formula_witness:
  "calculate_bounding_box_area widget = 1 / 10000
   \<and> bounding_box widget
       = \<lparr>min_x = Some (- 5), min_y = Some (- 5), max_x = Some 5, max_y = Some 5\<rparr>
   \<and> calculate_total_length widget = 5 + 10 * pi"
  using bounding_box_area_formula [of widget]
  by (simp add: widget_points widget_length box_of_points_def)

subsection \<open>Monotonicity\<close>







subsection \<open>Entities that raise or are not recognized\<close>

lemma length_step_skip:
  "isl (entity_length bad) \<or> \<not> recognized bad \<Longrightarrow> length_step t bad = t"
  by (cases "entity_length bad")
     (auto simp: length_step_def entity_length_def recognized_def)

lemma vertices_unrecognized: "\<not> recognized bad \<Longrightarrow> get_entity_vertices bad = Inr []"
  by (simp add: get_entity_vertices_def recognized_def)

lemma extent_points_skip:
  "isl (get_entity_vertices bad) \<or> \<not> recognized bad \<Longrightarrow> extent_points [bad] = []"
  by (cases "get_entity_vertices bad") (auto simp: extent_points_def vertices_unrecognized)

text \<open>
  C7, as the specification states it: an entity that raises during its processing adds
  nothing to the total length and no point to the extent. The source measures in two
  passes, each with its own handler: a circle whose centre cannot be read raises in the
  pass of the bounding box, and still adds its circumference to the total length.
\<close>

theorem raise_in_one_pass_counterexample:
  "isl (get_entity_vertices ((no_entity ''CIRCLE'')\<lparr>dxf_radius := Some 1\<rparr>))
   \<and> calculate_total_length [(no_entity ''CIRCLE'')\<lparr>dxf_radius := Some 1\<rparr>]
       \<noteq> calculate_total_length []"
  by (simp add: get_entity_vertices_def no_entity_def attr_def calculate_total_length_def
      length_step_def entity_length_def calculate_circle_length_def)

text \<open>
  C7, amended: an entity that is not recognized, or on which the computation of the length
  raises, adds nothing to the total length, and the total length of the drawing is that of
  the drawing without it; an entity that is not recognized, or on which
  \<^verbatim>\<open>get_entity_vertices\<close> raises, adds no point to the extent, and the bounding box and
  the area of the drawing are those of the drawing without it. The two passes are
  independent.
\<close>

theorem bad_entity_skipped_per_pass:
  "(isl (entity_length bad) \<or> \<not> recognized bad \<longrightarrow>
      length_step t bad = t
      \<and> calculate_total_length (pre @ bad # post) = calculate_total_length (pre @ post))
   \<and> (isl (get_entity_vertices bad) \<or> \<not> recognized bad \<longrightarrow>
      extent_points [bad] = []
      \<and> bounding_box (pre @ bad # post) = bounding_box (pre @ post)
      \<and> calculate_bounding_box_area (pre @ bad # post) = calculate_bounding_box_area (pre @ post))"
proof -
  have len: "calculate_total_length (pre @ bad # post) = calculate_total_length (pre @ post)"
    if "isl (entity_length bad) \<or> \<not> recognized bad"
    using length_step_skip [OF that] by (simp add: calculate_total_length_def)
  have pts: "extent_points (pre @ bad # post) = extent_points (pre @ post)"
    if "isl (get_entity_vertices bad) \<or> \<not> recognized bad"
    using extent_points_skip [OF that] extent_points_Cons [of bad post]
    by (simp add: extent_points_append)
  show ?thesis
    using len pts length_step_skip extent_points_skip
    by (simp add: calculate_bounding_box_area_def bounding_box_points)
qed

theorem bad_entity_skipped_per_pass_witness:
  "\<not> recognized (no_entity ''HATCH'')
   \<and> calculate_total_length
        [(no_entity ''CIRCLE'')\<lparr>dxf_center := Some (0, 0), dxf_radius := Some 5\<rparr>,
         no_entity ''HATCH'']
      = calculate_total_length
        [(no_entity ''CIRCLE'')\<lparr>dxf_center := Some (0, 0), dxf_radius := Some 5\<rparr>]
   \<and> isl (entity_length (no_entity ''LINE''))
   \<and> isl (get_entity_vertices (no_entity ''LINE''))
   \<and> calculate_total_length
        [no_entity ''LINE'',
         (no_entity ''CIRCLE'')\<lparr>dxf_center := Some (0, 0), dxf_radius := Some 5\<rparr>]
      = calculate_total_length
        [(no_entity ''CIRCLE'')\<lparr>dxf_center := Some (0, 0), dxf_radius := Some 5\<rparr>]
   \<and> bounding_box
        [no_entity ''LINE'',
         (no_entity ''CIRCLE'')\<lparr>dxf_center := Some (0, 0), dxf_radius := Some 5\<rparr>]
      = bounding_box
        [(no_entity ''CIRCLE'')\<lparr>dxf_center := Some (0, 0), dxf_radius := Some 5\<rparr>]"
proof -
  let ?c = "(no_entity ''CIRCLE'')\<lparr>dxf_center := Some (0, 0), dxf_radius := Some 5\<rparr>"
  have h: "\<not> recognized (no_entity ''HATCH'')"
    by (simp add: recognized_def no_entity_def)
  have l: "isl (entity_length (no_entity ''LINE''))"
    by (simp add: entity_length_def calculate_line_length_def no_entity_def attr_def)
  have v: "isl (get_entity_vertices (no_entity ''LINE''))"
    by (simp add: get_entity_vertices_def no_entity_def attr_def)
  from bad_entity_skipped_per_pass [of "no_entity ''HATCH''" 0 "[?c]" "[]"] h
  have "calculate_total_length [?c, no_entity ''HATCH''] = calculate_total_length [?c]"
    by simp
  moreover from bad_entity_skipped_per_pass [of "no_entity ''LINE''" 0 "[]" "[?c]"] l v
  have "calculate_total_length [no_entity ''LINE'', ?c] = calculate_total_length [?c]"
    "bounding_box [no_entity ''LINE'', ?c] = bounding_box [?c]"
    by simp_all
  ultimately show ?thesis
    using h l v by simp
qed

subsection \<open>Circles and arcs\<close>

lemma circle_vertices_exact:
  "circle_vertices id (cx, cy) r = [(cx - r, cy), (cx + r, cy), (cx, cy - r), (cx, cy + r)]"
  by (simp add: circle_vertices_def)

lemma circle_box_rounded:
  assumes "mono rnd" "rnd cx = cx" "rnd cy = cy" "0 \<le> r"
  shows "foldl merge_point empty_bbox (circle_vertices rnd (cx, cy) r)
           = \<lparr>min_x = Some (rnd (cx - r)), min_y = Some (rnd (cy - r)),
              max_x = Some (rnd (cx + r)), max_y = Some (rnd (cy + r))\<rparr>"
proof -
  have x: "rnd (cx - r) \<le> cx" "cx \<le> rnd (cx + r)"
    using monoD [OF assms(1), of "cx - r" cx] monoD [OF assms(1), of cx "cx + r"] assms(2,4)
    by simp_all
  have y: "rnd (cy - r) \<le> cy" "cy \<le> rnd (cy + r)"
    using monoD [OF assms(1), of "cy - r" cy] monoD [OF assms(1), of cy "cy + r"] assms(3,4)
    by simp_all
  from x y show ?thesis
    by (simp add: circle_vertices_def merge_point_def empty_bbox_def min_def max_def)
qed

text \<open>
  C8, as the specification states it: the box of the four points of a circle has width
  and height exactly \<open>2r\<close>. In the doubles the four coordinates and their difference are
  rounded: for the circle of centre (0.1, 0.7) and radius 0.3 the source computes the
  height 0.6000000000000001, the double next above \<open>2 * 0.3\<close>.
\<close>

theorem circle_height_rounding_counterexample:
  "bbox_height binary64
     (foldl merge_point empty_bbox (circle_vertices binary64 (double_0_1, double_0_7) double_0_3))
     \<noteq> Some (2 * double_0_3)"
proof -
  have "foldl merge_point empty_bbox (circle_vertices binary64 (double_0_1, double_0_7) double_0_3)
          = \<lparr>min_x = Some (- (7205759403792793 / 2 ^ 55)),
             min_y = Some (7205759403792793 / 2 ^ 54),
             max_x = Some (7205759403792794 / 2 ^ 54), max_y = Some 1\<rparr>"
    by (simp add: circle_vertices_def merge_point_def empty_bbox_def double_circle_left
        double_circle_right double_circle_bottom double_circle_top)
       (simp add: double_0_1_def double_0_7_def)
  then have "bbox_height binary64
     (foldl merge_point empty_bbox (circle_vertices binary64 (double_0_1, double_0_7) double_0_3))
       = Some (5404319552844596 / 2 ^ 53)"
    by (simp only: bbox_height_def bbox.select_convs prod.case option.case
        double_circle_height)
  then show ?thesis
    by (simp add: double_0_3_def)
qed

text \<open>
  C8, amended: for a circle of radius \<open>r \<ge> 0\<close> the length is \<open>2\<pi>r\<close>, the extent is the four
  points at the centre plus and minus \<open>r\<close> on each axis, and the box of these points runs
  from the centre minus \<open>r\<close> to the centre plus \<open>r\<close> on each axis, each coordinate as the
  source computes it; its width and height are the rounded differences of these
  coordinates, which are \<open>2r\<close> in exact arithmetic and \<open>2r\<close> up to rounding in the doubles.
\<close>

theorem circle_length_and_extent:
  assumes "dxftype e = ''CIRCLE''" "dxf_center e = Some (cx, cy)" "dxf_radius e = Some r"
    and "0 \<le> r"
    and "mono rnd" "rnd cx = cx" "rnd cy = cy"
  shows "calculate_circle_length e = Inr (2 * pi * r)
     \<and> entity_length e = Inr (2 * pi * r)
     \<and> get_entity_vertices e = Inr [(cx - r, cy), (cx + r, cy), (cx, cy - r), (cx, cy + r)]
     \<and> get_entity_vertices e = Inr (circle_vertices id (cx, cy) r)
     \<and> bounding_box [e] = \<lparr>min_x = Some (cx - r), min_y = Some (cy - r),
                            max_x = Some (cx + r), max_y = Some (cy + r)\<rparr>
     \<and> foldl merge_point empty_bbox (circle_vertices rnd (cx, cy) r)
         = \<lparr>min_x = Some (rnd (cx - r)), min_y = Some (rnd (cy - r)),
            max_x = Some (rnd (cx + r)), max_y = Some (rnd (cy + r))\<rparr>
     \<and> bbox_width rnd (foldl merge_point empty_bbox (circle_vertices rnd (cx, cy) r))
         = Some (rnd (rnd (cx + r) - rnd (cx - r)))
     \<and> bbox_height rnd (foldl merge_point empty_bbox (circle_vertices rnd (cx, cy) r))
         = Some (rnd (rnd (cy + r) - rnd (cy - r)))
     \<and> bbox_width id (bounding_box [e]) = Some (2 * r)
     \<and> bbox_height id (bounding_box [e]) = Some (2 * r)"
proof -
  have len: "calculate_circle_length e = Inr (2 * pi * r)"
    using assms(3) by (simp add: calculate_circle_length_def attr_def)
  have el: "entity_length e = calculate_circle_length e"
    using assms(1) by (simp add: entity_length_def)
  have vs: "get_entity_vertices e = Inr [(cx - r, cy), (cx + r, cy), (cx, cy - r), (cx, cy + r)]"
    using assms(1,2,3) by (simp add: get_entity_vertices_def attr_def)
  have box: "bounding_box [e] = \<lparr>min_x = Some (cx - r), min_y = Some (cy - r),
                                  max_x = Some (cx + r), max_y = Some (cy + r)\<rparr>"
    using assms(4)
    by (simp add: bounding_box_def bbox_step_def vs merge_point_def empty_bbox_def
        min_def max_def)
  note rb = circle_box_rounded [OF assms(5,6,7,4)]
  have w: "bbox_width rnd (foldl merge_point empty_bbox (circle_vertices rnd (cx, cy) r))
             = Some (rnd (rnd (cx + r) - rnd (cx - r)))"
    and h: "bbox_height rnd (foldl merge_point empty_bbox (circle_vertices rnd (cx, cy) r))
             = Some (rnd (rnd (cy + r) - rnd (cy - r)))"
    by (simp_all only: rb) (simp_all add: bbox_width_def bbox_height_def)
  have ex: "bbox_width id (bounding_box [e]) = Some (2 * r)"
    "bbox_height id (bounding_box [e]) = Some (2 * r)"
    by (simp_all add: box bbox_width_def bbox_height_def)
  from len el vs box rb w h ex circle_vertices_exact [of cx cy r] show ?thesis
    by simp
qed

theorem circle_length_and_extent_witness:
  "entity_length
     ((no_entity ''CIRCLE'')\<lparr>dxf_center := Some (double_0_1, double_0_7),
                              dxf_radius := Some double_0_3\<rparr>) = Inr (2 * pi * double_0_3)
   \<and> foldl merge_point empty_bbox
       (circle_vertices binary64 (double_0_1, double_0_7) double_0_3)
     = \<lparr>min_x = Some (binary64 (double_0_1 - double_0_3)),
        min_y = Some (binary64 (double_0_7 - double_0_3)),
        max_x = Some (binary64 (double_0_1 + double_0_3)),
        max_y = Some (binary64 (double_0_7 + double_0_3))\<rparr>
   \<and> bbox_width id
       (bounding_box
          [(no_entity ''CIRCLE'')\<lparr>dxf_center := Some (double_0_1, double_0_7),
                                   dxf_radius := Some double_0_3\<rparr>])
     = Some (2 * double_0_3)"
proof -
  let ?c = "(no_entity ''CIRCLE'')\<lparr>dxf_center := Some (double_0_1, double_0_7),
                                     dxf_radius := Some double_0_3\<rparr>"
  have c: "dxftype ?c = ''CIRCLE''" "dxf_center ?c = Some (double_0_1, double_0_7)"
    "dxf_radius ?c = Some double_0_3"
    by (simp_all add: no_entity_def)
  have r: "0 \<le> double_0_3"
    by (simp add: double_0_3_def)
  from circle_length_and_extent
    [OF c r binary64_mono binary64_double_0_1 binary64_double_0_7]
  show ?thesis by blast
qed

text \<open>
  C9: the extent of an arc is the list of its two end points, the centre plus the radius
  times the cosine and the sine of the start angle and of the end angle, and nothing
  else. The witness is the upper half of the unit circle: its extent is (1, 0) and
  (-1, 0), although the point of the arc at 90 degrees has the ordinate 1.
\<close>

theorem arc_extent_endpoints:
  assumes "dxftype e = ''ARC''" "dxf_center e = Some (cx, cy)" "dxf_radius e = Some r"
    and "dxf_start_angle e = Some sa" "dxf_end_angle e = Some ea"
  shows "get_entity_vertices e =
           Inr [(cx + r * cos (radians sa), cy + r * sin (radians sa)),
                (cx + r * cos (radians ea), cy + r * sin (radians ea))]
       \<and> extent_points [e] =
           [(cx + r * cos (radians sa), cy + r * sin (radians sa)),
            (cx + r * cos (radians ea), cy + r * sin (radians ea))]"
  using assms by (simp add: get_entity_vertices_def attr_def extent_points_def Let_def)

theorem arc_extent_endpoints_witness:
  "get_entity_vertices
     ((no_entity ''ARC'')\<lparr>dxf_center := Some (0, 0), dxf_radius := Some 1,
                           dxf_start_angle := Some 0, dxf_end_angle := Some 180\<rparr>)
     = Inr [(1, 0), (- 1, 0)]
   \<and> sin (radians 90) = 1"
proof -
  let ?a = "(no_entity ''ARC'')\<lparr>dxf_center := Some (0, 0), dxf_radius := Some 1,
                                  dxf_start_angle := Some 0, dxf_end_angle := Some 180\<rparr>"
  have a: "dxftype ?a = ''ARC''" "dxf_center ?a = Some (0, 0)" "dxf_radius ?a = Some 1"
    "dxf_start_angle ?a = Some 0" "dxf_end_angle ?a = Some 180"
    by (simp_all add: no_entity_def)
  from arc_extent_endpoints [OF a] show ?thesis
    by (simp add: radians_def)
qed

end
